theory Spec2Isabelle
  imports Complex_Main "HOL-Library.Char_ord" "HOL-Library.List_Lexorder" "HOL-Library.AList"
begin

section \<open>cameraInit: embedding of \<^verbatim>\<open>src/software/pipeline/main_cameraInit.cpp\<close>\<close>

text \<open>
  The program is one translation unit: two resolver functions (\<^verbatim>\<open>listFiles\<close>,
  \<^verbatim>\<open>retrieveResources\<close>), the K-matrix check, the class \<^verbatim>\<open>ImageMetadata\<close> and
  \<^verbatim>\<open>main\<close>. Everything it calls from other libraries (stlplus, rapidjson, the image
  and EXIF readers, the sensor database, the SfM container) is a field of the record
  \<open>collaborators\<close> below: the embedding is parametric in what those calls return.

  Conventions.
  \<^item> \<^verbatim>\<open>double\<close> and \<^verbatim>\<open>float\<close> values are exact reals: rounding is not modelled.
    The theorems below depend on comparisons with the sentinel \<open>-1\<close>, on signs and on the
    shape of one formula, never on a rounded digit.
  \<^item> \<^verbatim>\<open>std::size_t\<close> counters are naturals: a run would need \<open>2 ^ 32\<close> frames before a
    counter could leave the range of an identifier.
  \<^item> An uncaught C++ exception and a read of \<^verbatim>\<open>front()\<close> of an empty vector end the run;
    both are values of the type \<open>exit_status\<close>.
  \<^item> Members of \<^verbatim>\<open>ImageMetadata\<close> are written \<open>m_x\<close> for the source's \<^verbatim>\<open>_x\<close>.
\<close>

subsection \<open>Resources and the file system\<close>

type_synonym ResourcePathsPerCamera = "string list list"
type_synonym Resources = "ResourcePathsPerCamera list"

text \<open>
  What a path denotes on disk, as \<^verbatim>\<open>stlplus::is_file\<close>, \<^verbatim>\<open>is_folder\<close> and
  \<^verbatim>\<open>folder_all\<close> report it: a file, a folder with its named items, or neither.
\<close>

datatype fs_entry = File | Folder "(string \<times> fs_entry) list" | Neither

text \<open>The JSON values \<^verbatim>\<open>retrieveResources\<close> distinguishes (\<^verbatim>\<open>IsString\<close>, \<^verbatim>\<open>IsArray\<close>).\<close>

datatype json = JString string | JArray "json list" | JOther

text \<open>
  The manifest file after \<^verbatim>\<open>document.Parse\<close>: missing file, a stream that cannot be
  opened, a document that is no object, or an object with its member \<^verbatim>\<open>resources\<close>.
\<close>

datatype manifest = FileMissing | CannotOpen | NotObject | Object "json option"

text \<open>The local struct \<^verbatim>\<open>sensorInfo\<close> of \<^verbatim>\<open>main\<close> (lines 806 to 817).\<close>

record sensorInfo =
  filePath :: string
  brand :: string
  model :: string

text \<open>
  The log: one constructor for each \<^verbatim>\<open>ALICEVISION_LOG_ERROR\<close> and
  \<^verbatim>\<open>ALICEVISION_LOG_WARNING\<close> of \<^verbatim>\<open>listFiles\<close>, \<^verbatim>\<open>retrieveResources\<close> and
  \<^verbatim>\<open>main\<close>, with the value the message prints. The info and trace lines and the
  messages of \<^verbatim>\<open>ImageMetadata\<close> and \<^verbatim>\<open>checkIntrinsicStringValidity\<close> are not recorded.
  \<open>ErrorFolderEmpty\<close> carries the whole path; the message prints its file-name part.
\<close>

datatype message =
    ErrorFolderEmpty string
  | ErrorNotValidPath string
  | ErrorNoSuchJsonFile string
  | ErrorNotJson string
  | ErrorNoResourcesMember
  | ErrorResourcesNotArray
  | ErrorCombineIJ
  | ErrorInputDirectory
  | ErrorInvalidOutputDirectory
  | ErrorCreateOutputDirectory
  | ErrorCombineFK
  | ErrorInvalidKMatrix
  | ErrorInvalidDatabase string
  | ErrorCantRetrieve string
  | ErrorCantFindImagePaths string
  | ErrorNoImagePaths
  | ErrorRigImageCount
  | WarningUnknownFormat string
  | WarningCantReadHeader string
  | WarningInvalidSize string
  | ErrorRigDimensions
  | WarningDuplicate string
  | WarningNoMetadata "string list"
  | ErrorSensorWidthUnknown "sensorInfo list"
  | ErrorNoMetadataAll
  | WarningViewsWithoutMetadata nat

text \<open>How a run ends. The last two are an uncaught exception and undefined behaviour.\<close>

datatype exit_status = EXIT_SUCCESS | EXIT_FAILURE | Uncaught_exception | Undefined_behaviour

definition tolower :: "char \<Rightarrow> char" where
  "tolower c = (let n = (of_char c :: nat) in if 65 \<le> n \<and> n \<le> 90 then char_of (n + 32) else c)"

text \<open>
  \<^verbatim>\<open>listFiles\<close> (lines 82 to 122). The out-parameter \<^verbatim>\<open>resources\<close> and the log are
  threaded as an accumulator pair; the result is the returned flag with the pair.
  A file whose extension matches none of \<open>extensions\<close> leaves the loop without a
  \<^verbatim>\<open>return\<close> and reaches the final \<^verbatim>\<open>return true\<close>. \<open>ext\<close> is
  \<^verbatim>\<open>stlplus::extension_part\<close>, \<open>mk\<close> is \<^verbatim>\<open>stlplus::create_filespec\<close>.
\<close>

fun listFiles :: "(string \<Rightarrow> string) \<Rightarrow> (string \<Rightarrow> string \<Rightarrow> string) \<Rightarrow> string list \<Rightarrow>
    string \<Rightarrow> fs_entry \<Rightarrow> string list \<times> message list \<Rightarrow> bool \<times> string list \<times> message list"
and listFiles_items :: "(string \<Rightarrow> string) \<Rightarrow> (string \<Rightarrow> string \<Rightarrow> string) \<Rightarrow> string list \<Rightarrow>
    string \<Rightarrow> (string \<times> fs_entry) list \<Rightarrow> string list \<times> message list \<Rightarrow> bool \<times> string list \<times> message list"
where
  "listFiles ext mk extensions folderOrFile File (resources, lg) =
     (let fileExtension = map tolower (ext folderOrFile)
      in if fileExtension \<in> set extensions
         then (True, resources @ [folderOrFile], lg)
         else (True, resources, lg))"
| "listFiles ext mk extensions folderOrFile (Folder allFiles) (resources, lg) =
     (if allFiles = []
      then (False, resources, lg @ [ErrorFolderEmpty folderOrFile])
      else listFiles_items ext mk extensions folderOrFile allFiles (resources, lg))"
| "listFiles ext mk extensions folderOrFile Neither (resources, lg) =
     (False, resources, lg @ [ErrorNotValidPath folderOrFile])"
| "listFiles_items ext mk extensions folderOrFile [] acc = (True, acc)"
| "listFiles_items ext mk extensions folderOrFile (item # rest) acc =
     (case listFiles ext mk extensions (mk folderOrFile (fst item)) (snd item) acc of
        (False, acc') \<Rightarrow> (False, acc')
      | (True, acc') \<Rightarrow> listFiles_items ext mk extensions folderOrFile rest acc')"


subsection \<open>Types of the libraries the program uses\<close>

text \<open>
  Modelled from the spec: the enumeration \<^verbatim>\<open>EINTRINSIC\<close>, declared in the camera library
  and not in this file; the specification gives its closed set of model kinds. The source names
  \<^verbatim>\<open>PINHOLE_CAMERA_START\<close>, \<^verbatim>\<open>PINHOLE_CAMERA\<close>, \<^verbatim>\<open>PINHOLE_CAMERA_RADIAL3\<close>,
  \<^verbatim>\<open>PINHOLE_CAMERA_FISHEYE\<close> and \<^verbatim>\<open>PINHOLE_CAMERA_FISHEYE1\<close>; its help text (line 585)
  names the radial-1 and the brown kind as well.
\<close>

datatype EINTRINSIC =
    PINHOLE_CAMERA_START
  | PINHOLE_CAMERA
  | PINHOLE_CAMERA_RADIAL1
  | PINHOLE_CAMERA_RADIAL3
  | PINHOLE_CAMERA_BROWN
  | PINHOLE_CAMERA_FISHEYE
  | PINHOLE_CAMERA_FISHEYE1

type_synonym ExifData = "string \<rightharpoonup> string"

text \<open>
  Modelled from the spec: the class \<^verbatim>\<open>EasyExifIO\<close> of the EXIF library, as the record of
  what an opened reader answers to the getters the program calls (the tags of
  \<^verbatim>\<open>ReadExifTags\<close> in the specification).
\<close>

record EasyExifIO =
  doesHaveExifInfo :: bool
  getBrand :: string
  getModel :: string
  getSerialNumber :: string
  getLensSerialNumber :: string
  getFocal :: real
  getExifData :: ExifData

text \<open>
  Modelled from the spec: an entry of the sensor database, of which the program reads the
  sensor size.
\<close>

record Datasheet =
  d_brand :: string
  d_model :: string
  d_sensorSize :: real

text \<open>
  Modelled from the spec: the class \<^verbatim>\<open>IntrinsicBase\<close> of the camera library, as far as
  the program writes it: the arguments of
  \<^verbatim>\<open>createPinholeIntrinsic\<close>, \<^verbatim>\<open>setInitialFocalLengthPix\<close>, the argument of
  \<^verbatim>\<open>updateFromParams\<close> when it is called, and \<^verbatim>\<open>setSerialNumber\<close>.
\<close>

record IntrinsicBase =
  i_type :: EINTRINSIC
  i_w :: int
  i_h :: int
  i_focal :: real
  i_ppx :: real
  i_ppy :: real
  i_initialFocalLengthPix :: real
  i_params :: "real list option"
  i_serialNumber :: string

text \<open>
  Modelled from the spec: the class \<^verbatim>\<open>View\<close> of the SfM library, as the record of the
  arguments of the constructor call of line 997, \<^verbatim>\<open>setMetadata\<close> and
  \<^verbatim>\<open>setRigAndSubPoseId\<close>.
\<close>

record View =
  v_imagePath :: string
  v_viewId :: nat
  v_intrinsicId :: nat
  v_poseId :: nat
  v_width :: int
  v_height :: int
  v_metadata :: ExifData
  v_rigAndSubPoseId :: "(nat \<times> nat) option"

text \<open>
  Modelled from the spec: the class \<^verbatim>\<open>SfMData\<close>, the container of the view, intrinsic
  and rig registries. The three registries are \<^verbatim>\<open>std::map\<close>s; they are association lists
  here, so that "one entry per key" is a property to prove and not a property of the type.
  A rig is its camera count. The fields are \<open>s_views\<close>, \<open>s_intrinsics\<close> and \<open>s_rigs\<close>;
  the names \<open>views\<close>, \<open>intrinsics\<close> and \<open>rigs\<close> are kept for the references of
  \<^verbatim>\<open>main\<close> (lines 797 to 799).
\<close>

record SfMData =
  s_root_path :: string
  s_views :: "(nat \<times> View) list"
  s_intrinsics :: "(nat \<times> IntrinsicBase) list"
  s_rigs :: "(nat \<times> nat) list"

subsection \<open>The collaborators\<close>

record collaborators =
  extension_part :: "string \<Rightarrow> string"
  create_filespec :: "string \<Rightarrow> string \<Rightarrow> string"
  folder_part :: "string \<Rightarrow> string"
  entry_at :: "string \<Rightarrow> fs_entry"
  load_json :: "string \<Rightarrow> manifest"
  folder_exists :: "string \<Rightarrow> bool"
  folder_create :: "string \<Rightarrow> bool"
  folder_files :: "string \<Rightarrow> string list"
  split :: "string \<Rightarrow> string \<Rightarrow> string list"
  read_double :: "string \<Rightarrow> real option"
  to_string :: "real \<Rightarrow> string"
  GetFormat_Unknown :: "string \<Rightarrow> bool"
  ReadImageHeader :: "string \<Rightarrow> (int \<times> int) option"
  exif_open :: "string \<Rightarrow> EasyExifIO"
  computeUID :: "EasyExifIO \<Rightarrow> string \<Rightarrow> nat"
  parseDatabase :: "string \<Rightarrow> Datasheet list option"
  getInfo :: "string \<Rightarrow> string \<Rightarrow> Datasheet list \<Rightarrow> Datasheet option"
  EINTRINSIC_stringToEnum :: "string \<Rightarrow> EINTRINSIC option"
  EINTRINSIC_enumToString :: "EINTRINSIC \<Rightarrow> string"
  UndefinedIndexT :: nat
  GroupSharedIntrinsics :: "SfMData \<Rightarrow> SfMData"
  Save :: "SfMData \<Rightarrow> bool"

text \<open>
  \<open>entry_at\<close> answers \<^verbatim>\<open>is_file\<close>, \<^verbatim>\<open>is_folder\<close> and \<^verbatim>\<open>folder_all\<close> for a
  path and, through the tree, for every path built below it with \<^verbatim>\<open>create_filespec\<close>.
  \<open>load_json\<close> is \<^verbatim>\<open>file_exists\<close>, the stream and \<^verbatim>\<open>document.Parse\<close>.
  \<open>read_double\<close> is \<^verbatim>\<open>ss >> readvalue\<close> on a fresh stream (\<open>None\<close>: the extraction
  fails). \<open>None\<close> of \<open>EINTRINSIC_stringToEnum\<close> is the exception it throws.
\<close>

subsection \<open>Manifest mode: \<^verbatim>\<open>retrieveResources\<close>\<close>

definition listFiles_path :: "collaborators \<Rightarrow> string list \<Rightarrow> string \<Rightarrow>
    string list \<times> message list \<Rightarrow> bool \<times> string list \<times> message list" where
  "listFiles_path env extensions path acc =
     listFiles (extension_part env) (create_filespec env) extensions path (entry_at env path) acc"

text \<open>
  The innermost loop (lines 207 to 214): the strings of one rig camera.
  The state is \<^verbatim>\<open>canListFiles\<close>, \<^verbatim>\<open>rigImagePaths\<close> and the log.
\<close>

fun rig_camera_loop :: "collaborators \<Rightarrow> string list \<Rightarrow> json list \<Rightarrow>
    bool \<times> string list \<times> message list \<Rightarrow> bool \<times> string list \<times> message list" where
  "rig_camera_loop env extensions [] st = st"
| "rig_camera_loop env extensions (itrVal # rest) (canListFiles, rigImagePaths, lg) =
     (case itrVal of
        JString p \<Rightarrow>
          (case listFiles_path env extensions p (rigImagePaths, lg) of
             (ok, acc) \<Rightarrow> rig_camera_loop env extensions rest (if \<not> ok then False else canListFiles, acc))
      | _ \<Rightarrow> rig_camera_loop env extensions rest (canListFiles, rigImagePaths, lg))"

text \<open>
  The loop over the entries of one group (lines 197 to 217). The state is
  \<^verbatim>\<open>canListFiles\<close>, \<^verbatim>\<open>imagePathsPerCamera\<close>, \<^verbatim>\<open>intrinsicImagePaths\<close> and the log.
\<close>

fun group_loop :: "collaborators \<Rightarrow> string list \<Rightarrow> json list \<Rightarrow>
    bool \<times> ResourcePathsPerCamera \<times> string list \<times> message list \<Rightarrow>
    bool \<times> ResourcePathsPerCamera \<times> string list \<times> message list" where
  "group_loop env extensions [] st = st"
| "group_loop env extensions (itrCam # rest) (canListFiles, imagePathsPerCamera, intrinsicImagePaths, lg) =
     (case itrCam of
        JString p \<Rightarrow>
          (case listFiles_path env extensions p (intrinsicImagePaths, lg) of
             (ok, paths, lg') \<Rightarrow>
               group_loop env extensions rest
                 (if \<not> ok then False else canListFiles, imagePathsPerCamera, paths, lg'))
      | JArray vals \<Rightarrow>
          (case rig_camera_loop env extensions vals (canListFiles, [], lg) of
             (can', rigImagePaths, lg') \<Rightarrow>
               group_loop env extensions rest
                 (can', imagePathsPerCamera @ [rigImagePaths], intrinsicImagePaths, lg'))
      | JOther \<Rightarrow>
          group_loop env extensions rest (canListFiles, imagePathsPerCamera, intrinsicImagePaths, lg))"

text \<open>
  The loop over the top-level entries (lines 182 to 224). The state is
  \<^verbatim>\<open>canListFiles\<close>, \<^verbatim>\<open>resources\<close> and the log.
\<close>

fun resources_loop :: "collaborators \<Rightarrow> string list \<Rightarrow> json list \<Rightarrow>
    bool \<times> Resources \<times> message list \<Rightarrow> bool \<times> Resources \<times> message list" where
  "resources_loop env extensions [] st = st"
| "resources_loop env extensions (itrRig # rest) (canListFiles, resources, lg) =
     (case itrRig of
        JString p \<Rightarrow>
          (case listFiles_path env extensions p ([], lg) of
             (ok, imagePaths, lg') \<Rightarrow>
               resources_loop env extensions rest
                 (if \<not> ok then False else canListFiles,
                  resources @ map (\<lambda>path. [[path]]) imagePaths, lg'))
      | JArray cams \<Rightarrow>
          (case group_loop env extensions cams (canListFiles, [], [], lg) of
             (can', imagePathsPerCamera, intrinsicImagePaths, lg') \<Rightarrow>
               resources_loop env extensions rest
                 (can',
                  resources @ [if intrinsicImagePaths \<noteq> []
                               then imagePathsPerCamera @ [intrinsicImagePaths]
                               else imagePathsPerCamera],
                  lg'))
      | JOther \<Rightarrow> resources_loop env extensions rest (canListFiles, resources, lg))"

text \<open>
  \<^verbatim>\<open>retrieveResources\<close> (lines 131 to 226): the returned flag, the resources and the
  log; \<open>Inl ()\<close> is the \<^verbatim>\<open>std::runtime_error\<close> of line 145.
\<close>

definition retrieveResources :: "collaborators \<Rightarrow> string \<Rightarrow> string list \<Rightarrow>
    unit + bool \<times> Resources \<times> message list" where
  "retrieveResources env jsonFile extensions =
     (case load_json env jsonFile of
        FileMissing \<Rightarrow> Inr (False, [], [ErrorNoSuchJsonFile jsonFile])
      | CannotOpen \<Rightarrow> Inl ()
      | NotObject \<Rightarrow> Inr (False, [], [ErrorNotJson jsonFile])
      | Object None \<Rightarrow> Inr (False, [], [ErrorNoResourcesMember])
      | Object (Some (JArray jsonResourcesArray)) \<Rightarrow>
          Inr (resources_loop env extensions jsonResourcesArray (True, [], []))
      | Object (Some _) \<Rightarrow> Inr (False, [], [ErrorResourcesNotArray]))"

subsection \<open>\<^verbatim>\<open>checkIntrinsicStringValidity\<close>\<close>

text \<open>
  The loop of lines 58 to 71 over the nine strings: the out-parameters \<open>focal\<close>,
  \<open>ppx\<close> and \<open>ppy\<close> are written as soon as their string is read, so a failure at a
  later string leaves the earlier writes in place.
\<close>

fun check_values :: "(string \<Rightarrow> real option) \<Rightarrow> nat \<Rightarrow> string list \<Rightarrow>
    real \<times> real \<times> real \<Rightarrow> bool \<times> real \<times> real \<times> real" where
  "check_values rd i [] out = (True, out)"
| "check_values rd i (x # xs) (focal, ppx, ppy) =
     (case rd x of
        None \<Rightarrow> (False, focal, ppx, ppy)
      | Some readvalue \<Rightarrow>
          check_values rd (Suc i) xs
            (if i = 0 then readvalue else focal,
             if i = 2 then readvalue else ppx,
             if i = 5 then readvalue else ppy))"

definition checkIntrinsicStringValidity :: "collaborators \<Rightarrow> string \<Rightarrow>
    real \<times> real \<times> real \<Rightarrow> bool \<times> real \<times> real \<times> real" where
  "checkIntrinsicStringValidity env Kmatrix out =
     (let vec_str = split env Kmatrix '';''
      in if length vec_str \<noteq> 9 then (False, out)
         else check_values (read_double env) 0 vec_str out)"

subsection \<open>The class \<^verbatim>\<open>ImageMetadata\<close>\<close>

record ImageMetadata =
  m_imageAbsPath :: string
  m_width :: int
  m_height :: int
  m_cameraBrand :: string
  m_cameraModel :: string
  m_serialNumber :: string
  m_metadataImageWidth :: int
  m_metadataImageHeight :: int
  m_ppx :: real
  m_ppy :: real
  m_ccdw :: real
  m_pxFocalLength :: real
  m_mmFocalLength :: real
  m_haveValidMetadata :: bool
  m_isResized :: bool
  m_intrinsicType :: EINTRINSIC
  m_exifData :: ExifData

text \<open>
  \<^verbatim>\<open>std::stoi\<close> in base 10: leading white space is skipped, one sign is read, then the
  longest run of digits; no digit is \<^verbatim>\<open>std::invalid_argument\<close>, a value outside
  \<^verbatim>\<open>int\<close> is \<^verbatim>\<open>std::out_of_range\<close>. Both exceptions are \<open>None\<close>.
\<close>

definition isspace :: "char \<Rightarrow> bool" where
  "isspace c = (let n = (of_char c :: nat) in n = 32 \<or> (9 \<le> n \<and> n \<le> 13))"

definition isdigit :: "char \<Rightarrow> bool" where
  "isdigit c = (let n = (of_char c :: nat) in 48 \<le> n \<and> n \<le> 57)"

fun decimal :: "int \<Rightarrow> string \<Rightarrow> int" where
  "decimal acc [] = acc"
| "decimal acc (c # cs) = decimal (10 * acc + (of_char c - 48)) cs"

definition stoi :: "string \<Rightarrow> int option" where
  "stoi str =
     (let t = dropWhile isspace str;
          negative = (t \<noteq> [] \<and> hd t = CHR ''-'');
          u = (if t \<noteq> [] \<and> (hd t = CHR ''-'' \<or> hd t = CHR ''+'') then tl t else t);
          ds = takeWhile isdigit u;
          v = (if negative then - decimal 0 ds else decimal 0 ds)
      in if ds = [] then None
         else if v < - (2 ^ 31) \<or> 2 ^ 31 - 1 < v then None
         else Some v)"

text \<open>
  One of the two blocks of lines 280 to 294: the metadata dimension starts as the decoded
  one and is replaced by the EXIF one when that is not positive.
\<close>

definition metadata_dimension :: "ExifData \<Rightarrow> string \<Rightarrow> int \<Rightarrow> int option" where
  "metadata_dimension exifData key decoded =
     (case exifData key of
        None \<Rightarrow> Some decoded
      | Some str \<Rightarrow>
          (case stoi str of
             None \<Rightarrow> None
           | Some exifValue \<Rightarrow> Some (if exifValue \<le> 0 then exifValue else decoded)))"

text \<open>
  The constructor (lines 238 to 313). Its \<^verbatim>\<open>double\<close> parameters \<open>width\<close> and
  \<open>height\<close> are integers here: the one call (line 904) passes the integer fields of the
  image header. \<open>None\<close> is an exception of \<^verbatim>\<open>std::stoi\<close>.
\<close>

definition ImageMetadata_new :: "collaborators \<Rightarrow> string \<Rightarrow> int \<Rightarrow> int \<Rightarrow> ImageMetadata option" where
  "ImageMetadata_new env imageAbsPath width height =
     (let exifReader = exif_open env imageAbsPath;
          cameraBrand = getBrand exifReader;
          cameraModel = getModel exifReader;
          haveValidMetadata =
            (doesHaveExifInfo exifReader \<and> cameraBrand \<noteq> [] \<and> cameraModel \<noteq> []);
          custom = (cameraBrand = [] \<or> cameraModel = []);
          exifData = (if haveValidMetadata then getExifData exifReader else Map.empty)
      in case metadata_dimension exifData ''image_width'' width of
           None \<Rightarrow> None
         | Some w0 \<Rightarrow>
        (case metadata_dimension exifData ''image_height'' height of
           None \<Rightarrow> None
         | Some h0 \<Rightarrow>
             (let rotated = (w0 = height \<and> h0 = width);
                  metadataImageWidth = (if rotated then width else w0);
                  metadataImageHeight = (if rotated then height else h0)
              in Some \<lparr>
                   m_imageAbsPath = imageAbsPath,
                   m_width = width,
                   m_height = height,
                   m_cameraBrand = (if custom then ''Custom'' else cameraBrand),
                   m_cameraModel =
                     (if custom then EINTRINSIC_enumToString env PINHOLE_CAMERA_RADIAL3
                      else cameraModel),
                   m_serialNumber = getSerialNumber exifReader @ getLensSerialNumber exifReader,
                   m_metadataImageWidth = metadataImageWidth,
                   m_metadataImageHeight = metadataImageHeight,
                   m_ppx = real_of_int width / 2,
                   m_ppy = real_of_int height / 2,
                   m_ccdw = - 1,
                   m_pxFocalLength = - 1,
                   m_mmFocalLength = (if custom then 12 / 10 else getFocal exifReader),
                   m_haveValidMetadata = haveValidMetadata,
                   m_isResized =
                     (metadataImageWidth \<noteq> width \<or> metadataImageHeight \<noteq> height),
                   m_intrinsicType = PINHOLE_CAMERA_START,
                   m_exifData = exifData \<rparr>)))"

text \<open>\<^verbatim>\<open>setKMatrix\<close> (lines 365 to 378): the returned flag and the object.\<close>

definition setKMatrix :: "collaborators \<Rightarrow> string \<Rightarrow> ImageMetadata \<Rightarrow> bool \<times> ImageMetadata" where
  "setKMatrix env kMatrix md =
     (if kMatrix = [] then (False, md)
      else case checkIntrinsicStringValidity env kMatrix (m_pxFocalLength md, m_ppx md, m_ppy md) of
             (False, _) \<Rightarrow>
               (False, md\<lparr> m_ppx := real_of_int (m_width md) / 2,
                           m_ppy := real_of_int (m_height md) / 2,
                           m_pxFocalLength := - 1 \<rparr>)
           | (True, focal, ppx, ppy) \<Rightarrow>
               (True, md\<lparr> m_pxFocalLength := focal, m_ppx := ppx, m_ppy := ppy \<rparr>))"

definition setFocalLengthPixel :: "real \<Rightarrow> ImageMetadata \<Rightarrow> ImageMetadata" where
  "setFocalLengthPixel pxFocalLengthPixel md = md\<lparr> m_pxFocalLength := pxFocalLengthPixel \<rparr>"

text \<open>
  \<^verbatim>\<open>setSensorWidth\<close> (lines 393 to 397): \<^verbatim>\<open>emplace\<close> leaves an entry that is
  already there.
\<close>

definition setSensorWidth :: "collaborators \<Rightarrow> real \<Rightarrow> ImageMetadata \<Rightarrow> ImageMetadata" where
  "setSensorWidth env sensorWidth md =
     md\<lparr> m_ccdw := sensorWidth,
         m_exifData :=
           (if m_exifData md ''sensor_width'' = None
            then (m_exifData md)(''sensor_width'' \<mapsto> to_string env sensorWidth)
            else m_exifData md) \<rparr>"

definition setIntrinsicType :: "EINTRINSIC \<Rightarrow> ImageMetadata \<Rightarrow> ImageMetadata" where
  "setIntrinsicType intrinsicType md = md\<lparr> m_intrinsicType := intrinsicType \<rparr>"

text \<open>\<^verbatim>\<open>computeSensorWidth\<close> (lines 412 to 428).\<close>

definition computeSensorWidth :: "collaborators \<Rightarrow> Datasheet list \<Rightarrow> ImageMetadata \<Rightarrow>
    bool \<times> ImageMetadata" where
  "computeSensorWidth env database md =
     (case getInfo env (m_cameraBrand md) (m_cameraModel md) database of
        None \<Rightarrow> (False, md)
      | Some datasheet \<Rightarrow> (True, setSensorWidth env (d_sensorSize datasheet) md))"

text \<open>
  \<^verbatim>\<open>computeIntrinsic\<close> in three steps: the focal length in pixels (lines 436 to 449),
  the camera model (lines 452 to 473), the intrinsic object (lines 476 to 517).
\<close>

definition compute_pxFocalLength :: "ImageMetadata \<Rightarrow> real" where
  "compute_pxFocalLength md =
     (if m_pxFocalLength md = - 1
      then (if m_mmFocalLength md \<le> 0 then m_pxFocalLength md
            else if m_ccdw md \<noteq> - 1
            then real_of_int (max (m_metadataImageWidth md) (m_metadataImageHeight md))
                   * m_mmFocalLength md / m_ccdw md
            else m_pxFocalLength md)
      else m_pxFocalLength md)"

definition choose_intrinsicType :: "collaborators \<Rightarrow> ImageMetadata \<Rightarrow> EINTRINSIC option" where
  "choose_intrinsicType env md =
     (if m_intrinsicType md = PINHOLE_CAMERA_START
      then (if m_cameraBrand md = ''Custom''
            then EINTRINSIC_stringToEnum env (m_cameraModel md)
            else if m_isResized md then Some PINHOLE_CAMERA
            else if m_mmFocalLength md > 0 \<and> m_mmFocalLength md < 15
            then Some PINHOLE_CAMERA_FISHEYE
            else Some PINHOLE_CAMERA_RADIAL3)
      else Some (m_intrinsicType md))"

definition gopro_params :: "ImageMetadata \<Rightarrow> real list option" where
  "gopro_params md =
     (if m_cameraBrand md \<noteq> ''GoPro'' then None
      else if m_intrinsicType md = PINHOLE_CAMERA_FISHEYE
      then Some [m_pxFocalLength md, m_ppx md, m_ppy md, 524 / 10000, 94 / 10000, - 37 / 10000, - 4 / 10000]
      else if m_intrinsicType md = PINHOLE_CAMERA_FISHEYE1
      then Some [m_pxFocalLength md, m_ppx md, m_ppy md, 104 / 100]
      else None)"

text \<open>
  The result is the intrinsic with the object after the call, whose \<open>m_pxFocalLength\<close>
  and \<open>m_intrinsicType\<close> the call has set. \<open>None\<close> is the exception of
  \<^verbatim>\<open>EINTRINSIC_stringToEnum\<close>.
\<close>

definition computeIntrinsic :: "collaborators \<Rightarrow> ImageMetadata \<Rightarrow> (IntrinsicBase \<times> ImageMetadata) option" where
  "computeIntrinsic env md =
     (let md1 = md\<lparr> m_pxFocalLength := compute_pxFocalLength md \<rparr>
      in case choose_intrinsicType env md1 of
           None \<Rightarrow> None
         | Some intrinsicType \<Rightarrow>
             (let md2 = md1\<lparr> m_intrinsicType := intrinsicType \<rparr>
              in Some (\<lparr> i_type = intrinsicType,
                          i_w = m_width md2,
                          i_h = m_height md2,
                          i_focal = m_pxFocalLength md2,
                          i_ppx = m_ppx md2,
                          i_ppy = m_ppy md2,
                          i_initialFocalLengthPix = m_pxFocalLength md2,
                          i_params = gopro_params md2,
                          i_serialNumber =
                            (if m_haveValidMetadata md2 then m_serialNumber md2 else []) \<rparr>,
                       md2)))"

subsection \<open>\<^verbatim>\<open>main\<close>: options and local state\<close>

text \<open>The variables the option parser fills (lines 549 to 561).\<close>

record options =
  imageDirectory :: string
  jsonFile :: string
  sensorDatabasePath :: string
  outputDirectory :: string
  userKMatrix :: string
  userCameraModelName :: string
  userFocalLengthPixel :: real
  userSensorWidth :: real
  userGroupCameraModel :: int

text \<open>
  The locals of \<^verbatim>\<open>main\<close> that the assignment loop reads and writes (lines 797 to 820),
  with the log.
\<close>

record main_state =
  views :: "(nat \<times> View) list"
  intrinsics :: "(nat \<times> IntrinsicBase) list"
  rigs :: "(nat \<times> nat) list"
  rigId :: nat
  poseId :: nat
  intrinsicId :: nat
  nbCurrImages :: nat
  unknownSensorImages :: "sensorInfo list"
  noMetadataImages :: "string list"
  log :: "message list"

text \<open>The locals of one camera (lines 832 to 836).\<close>

record camera_locals =
  isCameraFirstImage :: bool
  cameraWidth :: int
  cameraHeight :: int
  cameraExifData :: ExifData

type_synonym 'a run = "exit_status \<times> message list + 'a"

text \<open>\<^verbatim>\<open>std::to_string\<close> of a \<^verbatim>\<open>std::size_t\<close>.\<close>

fun to_string_nat :: "nat \<Rightarrow> string" where
  "to_string_nat n =
     (if n < 10 then [char_of (48 + n)]
      else to_string_nat (n div 10) @ [char_of (48 + n mod 10)])"

declare to_string_nat.simps [simp del]

subsection \<open>\<^verbatim>\<open>main\<close>: the first image of a camera (lines 898 to 965)\<close>

text \<open>
  The user's values are laid on the metadata object (lines 906 to 914).
  \<open>userCameraModel\<close> is the local of line 630.
\<close>

definition apply_user_metadata :: "collaborators \<Rightarrow> options \<Rightarrow> EINTRINSIC \<Rightarrow> ImageMetadata \<Rightarrow> ImageMetadata" where
  "apply_user_metadata env opts userCameraModel md =
     (let md1 = (if userCameraModelName opts \<noteq> [] then setIntrinsicType userCameraModel md else md);
          md2 = (if userKMatrix opts \<noteq> [] then snd (setKMatrix env (userKMatrix opts) md1) else md1)
      in if userFocalLengthPixel opts \<noteq> - 1
         then setFocalLengthPixel (userFocalLengthPixel opts) md2 else md2)"

text \<open>
  The sensor width (lines 917 to 929): the object after the block, and whether the image
  goes to \<^verbatim>\<open>unknownSensorImages\<close>.
\<close>

definition find_sensor_width :: "collaborators \<Rightarrow> options \<Rightarrow> Datasheet list \<Rightarrow> ImageMetadata \<Rightarrow>
    bool \<times> ImageMetadata" where
  "find_sensor_width env opts database md =
     (if userSensorWidth opts \<noteq> - 1
      then (False, setSensorWidth env (userSensorWidth opts) md)
      else case computeSensorWidth env database md of
             (found, md') \<Rightarrow>
               (\<not> found \<and> m_haveValidMetadata md' \<and> m_pxFocalLength md' = - 1, md'))"

text \<open>The serial number given to an intrinsic without metadata (lines 939 to 957).\<close>

definition no_metadata_serial :: "options \<Rightarrow> string \<Rightarrow> bool \<Rightarrow> bool \<Rightarrow> nat \<Rightarrow> nat \<Rightarrow>
    IntrinsicBase \<Rightarrow> IntrinsicBase" where
  "no_metadata_serial opts imageFolder isRig isGroup groupId cameraId intrinsic =
     (if userGroupCameraModel opts = 2
      then intrinsic\<lparr> i_serialNumber := imageFolder \<rparr>
      else if isRig
      then intrinsic\<lparr> i_serialNumber :=
             ''no_metadata_rig_'' @ to_string_nat groupId @ ''_'' @ to_string_nat cameraId \<rparr>
      else if isGroup
      then intrinsic\<lparr> i_serialNumber := ''no_metadata_intrincic_group_'' @ to_string_nat groupId \<rparr>
      else intrinsic)"

definition first_image :: "collaborators \<Rightarrow> options \<Rightarrow> EINTRINSIC \<Rightarrow> Datasheet list \<Rightarrow>
    nat \<Rightarrow> nat \<Rightarrow> bool \<Rightarrow> bool \<Rightarrow> nat \<Rightarrow> string \<Rightarrow> string \<Rightarrow> string \<Rightarrow> int \<Rightarrow> int \<Rightarrow>
    main_state \<Rightarrow> (camera_locals \<times> main_state) run" where
  "first_image env opts userCameraModel database groupId cameraId isRig isGroup
       cameraIntrincicId imagePath imageAbsPath imageFolder width height s =
     (case ImageMetadata_new env imageAbsPath width height of
        None \<Rightarrow> Inl (Uncaught_exception, log s)
      | Some md0 \<Rightarrow>
          (case find_sensor_width env opts database (apply_user_metadata env opts userCameraModel md0) of
             (unknown, imageMetadata) \<Rightarrow>
               (let s1 = (if unknown
                          then s\<lparr> unknownSensorImages := unknownSensorImages s @
                                   [\<lparr> filePath = imagePath,
                                      brand = m_cameraBrand imageMetadata,
                                      model = m_cameraModel imageMetadata \<rparr>] \<rparr>
                          else s);
                    s2 = (if \<not> m_haveValidMetadata imageMetadata
                          then s1\<lparr> noMetadataImages := noMetadataImages s1 @ [imagePath] \<rparr>
                          else s1)
                in case computeIntrinsic env imageMetadata of
                     None \<Rightarrow> Inl (Uncaught_exception, log s2)
                   | Some (intrinsic0, imageMetadata') \<Rightarrow>
                       (let intrinsic =
                              (if \<not> m_haveValidMetadata imageMetadata'
                               then no_metadata_serial opts imageFolder isRig isGroup groupId cameraId intrinsic0
                               else intrinsic0)
                        in Inr (\<lparr> isCameraFirstImage = False,
                                   cameraWidth = width,
                                   cameraHeight = height,
                                   cameraExifData = m_exifData imageMetadata' \<rparr>,
                                s2\<lparr> intrinsics :=
                                      AList.update cameraIntrincicId intrinsic (intrinsics s2) \<rparr>)))))"

subsection \<open>\<^verbatim>\<open>main\<close>: one frame (lines 849 to 1010)\<close>

text \<open>The view identifier, the duplicate check and the new view (lines 976 to 1009).\<close>

definition add_view :: "collaborators \<Rightarrow> bool \<Rightarrow> nat \<Rightarrow> nat \<Rightarrow> nat \<Rightarrow> string \<Rightarrow> string \<Rightarrow>
    int \<Rightarrow> int \<Rightarrow> camera_locals \<Rightarrow> main_state \<Rightarrow> main_state" where
  "add_view env isRig cameraId cameraIntrincicId frameId imagePath imageAbsPath width height c s =
     (let viewId = computeUID env (exif_open env imageAbsPath) imagePath
      in if map_of (views s) viewId \<noteq> None
         then s\<lparr> log := log s @ [WarningDuplicate imageAbsPath] \<rparr>
         else
           (let cameraPoseId = (if isRig then poseId s + frameId else poseId s);
                currView = \<lparr> v_imagePath = imagePath,
                             v_viewId = viewId,
                             v_intrinsicId = cameraIntrincicId,
                             v_poseId = cameraPoseId,
                             v_width = width,
                             v_height = height,
                             v_metadata = cameraExifData c,
                             v_rigAndSubPoseId = (if isRig then Some (rigId s, cameraId) else None) \<rparr>
            in s\<lparr> views := views s @ [(viewId, currView)],
                   poseId := (if isRig then poseId s else poseId s + 1),
                   nbCurrImages := nbCurrImages s + 1 \<rparr>))"

definition process_frame :: "collaborators \<Rightarrow> options \<Rightarrow> EINTRINSIC \<Rightarrow> Datasheet list \<Rightarrow>
    nat \<Rightarrow> nat \<Rightarrow> nat \<Rightarrow> nat \<Rightarrow> nat \<Rightarrow> nat \<Rightarrow> string \<Rightarrow>
    camera_locals \<times> main_state \<Rightarrow> (camera_locals \<times> main_state) run" where
  "process_frame env opts userCameraModel database groupId nbCameras cameraId cameraIntrincicId
       nbImages frameId imagePath cs =
     (case cs of (c, s) \<Rightarrow>
        (let isRig = (nbCameras > 1);
             isGroup = (nbImages > 1);
             imageAbsPath = (if imageDirectory opts = [] then imagePath
                             else create_filespec env (imageDirectory opts) imagePath);
             imageFolder = folder_part env imageAbsPath
         in if GetFormat_Unknown env imageAbsPath
            then Inr (c, s\<lparr> log := log s @ [WarningUnknownFormat imageAbsPath] \<rparr>)
            else case ReadImageHeader env imageAbsPath of
                   None \<Rightarrow> Inr (c, s\<lparr> log := log s @ [WarningCantReadHeader imageAbsPath] \<rparr>)
                 | Some (width, height) \<Rightarrow>
                     if width \<le> 0 \<or> height \<le> 0
                     then Inr (c, s\<lparr> log := log s @ [WarningInvalidSize imagePath] \<rparr>)
                     else
                       (case (if isCameraFirstImage c
                              then first_image env opts userCameraModel database groupId cameraId
                                     isRig isGroup cameraIntrincicId imagePath imageAbsPath
                                     imageFolder width height s
                              else if width \<noteq> cameraWidth c \<and> height \<noteq> cameraHeight c
                              then Inl (EXIT_FAILURE, log s @ [ErrorRigDimensions])
                              else Inr (c, s)) of
                          Inl e \<Rightarrow> Inl e
                        | Inr (c', s') \<Rightarrow>
                            Inr (c', add_view env isRig cameraId cameraIntrincicId frameId
                                       imagePath imageAbsPath width height c' s'))))"

subsection \<open>\<^verbatim>\<open>main\<close>: the three loops (lines 824 to 1018)\<close>

fun frame_loop :: "collaborators \<Rightarrow> options \<Rightarrow> EINTRINSIC \<Rightarrow> Datasheet list \<Rightarrow>
    nat \<Rightarrow> nat \<Rightarrow> nat \<Rightarrow> nat \<Rightarrow> nat \<Rightarrow> nat \<Rightarrow> string list \<Rightarrow>
    camera_locals \<times> main_state \<Rightarrow> (camera_locals \<times> main_state) run" where
  "frame_loop env opts userCameraModel database groupId nbCameras cameraId cameraIntrincicId
       nbImages frameId [] cs = Inr cs"
| "frame_loop env opts userCameraModel database groupId nbCameras cameraId cameraIntrincicId
       nbImages frameId (imagePath # rest) cs =
     (case process_frame env opts userCameraModel database groupId nbCameras cameraId
             cameraIntrincicId nbImages frameId imagePath cs of
        Inl e \<Rightarrow> Inl e
      | Inr cs' \<Rightarrow>
          frame_loop env opts userCameraModel database groupId nbCameras cameraId
            cameraIntrincicId nbImages (Suc frameId) rest cs')"

text \<open>
  The body of the camera loop (lines 832 to 1010): a new intrinsic identifier, the rig
  entry, then the frames of the camera from frame 0 with fresh camera locals.
\<close>

definition process_camera :: "collaborators \<Rightarrow> options \<Rightarrow> EINTRINSIC \<Rightarrow> Datasheet list \<Rightarrow>
    nat \<Rightarrow> nat \<Rightarrow> nat \<Rightarrow> string list \<Rightarrow> main_state \<Rightarrow> main_state run" where
  "process_camera env opts userCameraModel database groupId nbCameras cameraId cameraImagePaths s =
     (let cameraIntrincicId = intrinsicId s;
          s1 = s\<lparr> intrinsicId := intrinsicId s + 1 \<rparr>;
          nbImages = length cameraImagePaths;
          s2 = (if nbCameras > 1
                then s1\<lparr> rigs := AList.update (rigId s1) nbCameras (rigs s1) \<rparr> else s1)
      in case frame_loop env opts userCameraModel database groupId nbCameras cameraId
                cameraIntrincicId nbImages 0 cameraImagePaths
                (\<lparr> isCameraFirstImage = True, cameraWidth = 0, cameraHeight = 0,
                    cameraExifData = Map.empty \<rparr>, s2) of
           Inl e \<Rightarrow> Inl e
         | Inr (c, s3) \<Rightarrow> Inr s3)"

fun camera_loop :: "collaborators \<Rightarrow> options \<Rightarrow> EINTRINSIC \<Rightarrow> Datasheet list \<Rightarrow>
    nat \<Rightarrow> nat \<Rightarrow> nat \<Rightarrow> string list list \<Rightarrow> main_state \<Rightarrow> main_state run" where
  "camera_loop env opts userCameraModel database groupId nbCameras cameraId [] s = Inr s"
| "camera_loop env opts userCameraModel database groupId nbCameras cameraId (cameraImagePaths # rest) s =
     (case process_camera env opts userCameraModel database groupId nbCameras cameraId
             cameraImagePaths s of
        Inl e \<Rightarrow> Inl e
      | Inr s' \<Rightarrow>
          camera_loop env opts userCameraModel database groupId nbCameras (Suc cameraId) rest s')"

text \<open>
  The body of the group loop (lines 826 to 1017). \<^verbatim>\<open>front()\<close> is read only for a rig,
  which has a first camera.
\<close>

definition process_group :: "collaborators \<Rightarrow> options \<Rightarrow> EINTRINSIC \<Rightarrow> Datasheet list \<Rightarrow>
    nat \<Rightarrow> string list list \<Rightarrow> main_state \<Rightarrow> main_state run" where
  "process_group env opts userCameraModel database groupId groupImagePaths s =
     (let nbCameras = length groupImagePaths;
          isRig = (nbCameras > 1)
      in case camera_loop env opts userCameraModel database groupId nbCameras 0 groupImagePaths s of
           Inl e \<Rightarrow> Inl e
         | Inr s' \<Rightarrow>
             Inr (if isRig
                  then s'\<lparr> rigId := rigId s' + 1,
                           poseId := poseId s' + length (hd groupImagePaths) \<rparr>
                  else s'))"

fun image_listing :: "collaborators \<Rightarrow> options \<Rightarrow> EINTRINSIC \<Rightarrow> Datasheet list \<Rightarrow>
    nat \<Rightarrow> Resources \<Rightarrow> main_state \<Rightarrow> main_state run" where
  "image_listing env opts userCameraModel database groupId [] s = Inr s"
| "image_listing env opts userCameraModel database groupId (groupImagePaths # rest) s =
     (case process_group env opts userCameraModel database groupId groupImagePaths s of
        Inl e \<Rightarrow> Inl e
      | Inr s' \<Rightarrow> image_listing env opts userCameraModel database (Suc groupId) rest s')"

subsection \<open>\<^verbatim>\<open>main\<close>: before and after the loops\<close>

text \<open>
  Directory mode (lines 712 to 725): every file of the folder, sorted, is a group of one
  camera with one frame. No extension is looked at here.
\<close>

definition directory_resources :: "collaborators \<Rightarrow> string \<Rightarrow> Resources run" where
  "directory_resources env dir =
     (let imagePaths = folder_files env dir
      in if imagePaths \<noteq> []
         then Inr (map (\<lambda>imagePath. [[imagePath]]) (sort imagePaths))
         else Inl (EXIT_FAILURE, [ErrorCantFindImagePaths dir]))"

definition supportedExtensions :: "string list" where
  "supportedExtensions = [''jpg'', ''jpeg'']"

text \<open>Lines 702 to 726.\<close>

definition retrieve_image_paths :: "collaborators \<Rightarrow> options \<Rightarrow> Resources run" where
  "retrieve_image_paths env opts =
     (if imageDirectory opts = []
      then (case retrieveResources env (jsonFile opts) supportedExtensions of
              Inl _ \<Rightarrow> Inl (Uncaught_exception, [])
            | Inr (False, _, lg) \<Rightarrow> Inl (EXIT_FAILURE, lg @ [ErrorCantRetrieve (jsonFile opts)])
            | Inr (True, allImagePaths, lg) \<Rightarrow> Inr allImagePaths)
      else directory_resources env (imageDirectory opts))"

text \<open>
  The check of the rigs (lines 737 to 775), which also counts the images. \<^verbatim>\<open>front()\<close>
  of a group without camera is undefined behaviour.
\<close>

fun check_rigs :: "Resources \<Rightarrow> nat \<Rightarrow> nat run" where
  "check_rigs [] nbTotalImages = Inr nbTotalImages"
| "check_rigs (groupImagePaths # rest) nbTotalImages =
     (case groupImagePaths of
        [] \<Rightarrow> Inl (Undefined_behaviour, [])
      | front # _ \<Rightarrow>
          (let nbCameras = length groupImagePaths;
               nbCamImages = length front
           in if nbCameras > 1
              then (if \<exists>cameraImagePaths \<in> set groupImagePaths. length cameraImagePaths \<noteq> nbCamImages
                    then Inl (EXIT_FAILURE, [ErrorRigImageCount])
                    else check_rigs rest (nbTotalImages + nbCameras * nbCamImages))
              else if nbCamImages > 1
              then check_rigs rest (nbTotalImages + nbCamImages)
              else check_rigs rest (nbTotalImages + 1)))"

text \<open>
  \<^verbatim>\<open>std::unique\<close> with the equality given: of each run of neighbours that are equal,
  the first is kept. The equality of \<^verbatim>\<open>sensorInfo\<close> (lines 812 to 816) compares
  brand and model.
\<close>

fun unique :: "('a \<Rightarrow> 'a \<Rightarrow> bool) \<Rightarrow> 'a list \<Rightarrow> 'a list" where
  "unique eq [] = []"
| "unique eq [x] = [x]"
| "unique eq (x # y # ys) = (if eq x y then unique eq (x # ys) else x # unique eq (y # ys))"

definition sensorInfo_eq :: "sensorInfo \<Rightarrow> sensorInfo \<Rightarrow> bool" where
  "sensorInfo_eq a other = (brand a = brand other \<and> model a = model other)"

text \<open>The start of the loops (lines 785 to 820).\<close>

definition initial_state :: main_state where
  "initial_state =
     \<lparr> views = [], intrinsics = [], rigs = [], rigId = 0, poseId = 0, intrinsicId = 0,
       nbCurrImages = 0, unknownSensorImages = [], noMetadataImages = [], log = [] \<rparr>"

text \<open>The count of lines 1059 to 1065.\<close>

definition viewsWithoutIntrinsic :: "collaborators \<Rightarrow> SfMData \<Rightarrow> nat" where
  "viewsWithoutIntrinsic env sfm_data =
     length (filter (\<lambda>viewValue. v_intrinsicId (snd viewValue) = UndefinedIndexT env) (s_views sfm_data))"

text \<open>The verdict of lines 1074 to 1084 on the saved container.\<close>

definition report :: "collaborators \<Rightarrow> SfMData \<Rightarrow> message list \<Rightarrow> exit_status \<times> message list" where
  "report env sfm_data lg =
     (if viewsWithoutIntrinsic env sfm_data = length (s_views sfm_data)
      then (EXIT_FAILURE, lg @ [ErrorNoMetadataAll])
      else if viewsWithoutIntrinsic env sfm_data > 0
      then (EXIT_SUCCESS, lg @ [WarningViewsWithoutMetadata (viewsWithoutIntrinsic env sfm_data)])
      else (EXIT_SUCCESS, lg))"

text \<open>
  The container that is saved (lines 785 to 795 and 1047 to 1050): the registries of the
  loops, merged by the collaborator when the grouping option is not 0.
\<close>

definition container :: "collaborators \<Rightarrow> options \<Rightarrow> main_state \<Rightarrow> SfMData" where
  "container env opts s =
     (let sfm_data = \<lparr> s_root_path = (if jsonFile opts = [] then imageDirectory opts else []),
                       s_views = views s, s_intrinsics = intrinsics s, s_rigs = rigs s \<rparr>
      in if userGroupCameraModel opts \<noteq> 0 then GroupSharedIntrinsics env sfm_data else sfm_data)"

text \<open>After the loops (lines 1020 to 1084).\<close>

definition finish :: "collaborators \<Rightarrow> options \<Rightarrow> main_state \<Rightarrow> exit_status \<times> message list" where
  "finish env opts s =
     (let lg = (if noMetadataImages s \<noteq> []
                then log s @ [WarningNoMetadata (noMetadataImages s)] else log s)
      in if unknownSensorImages s \<noteq> []
         then (EXIT_FAILURE,
               lg @ [ErrorSensorWidthUnknown (unique sensorInfo_eq (unknownSensorImages s))])
         else if \<not> Save env (container env opts s) then (EXIT_FAILURE, lg)
         else report env (container env opts s) lg)"

text \<open>
  From the resolved paths to the end of the run (lines 728 to 1084).
\<close>

definition run_on_paths :: "collaborators \<Rightarrow> options \<Rightarrow> EINTRINSIC \<Rightarrow> Datasheet list \<Rightarrow>
    Resources \<Rightarrow> exit_status \<times> message list" where
  "run_on_paths env opts userCameraModel database allImagePaths =
     (if allImagePaths = [] then (EXIT_FAILURE, [ErrorNoImagePaths])
      else case check_rigs allImagePaths 0 of
             Inl e \<Rightarrow> e
           | Inr nbTotalImages \<Rightarrow>
               (case image_listing env opts userCameraModel database 0 allImagePaths initial_state of
                  Inl e \<Rightarrow> e
                | Inr s \<Rightarrow> finish env opts s))"

text \<open>
  \<^verbatim>\<open>main\<close> from line 629, with the parsed options. The K-matrix check of line 679
  writes the focal length it reads into \<^verbatim>\<open>userFocalLengthPixel\<close>.
\<close>

definition main :: "collaborators \<Rightarrow> options \<Rightarrow> exit_status \<times> message list" where
  "main env opts =
     (case (if userCameraModelName opts \<noteq> []
            then EINTRINSIC_stringToEnum env (userCameraModelName opts)
            else Some PINHOLE_CAMERA_START) of
        None \<Rightarrow> (Uncaught_exception, [])
      | Some userCameraModel \<Rightarrow>
          if imageDirectory opts \<noteq> [] \<and> jsonFile opts \<noteq> []
          then (EXIT_FAILURE, [ErrorCombineIJ])
          else if imageDirectory opts \<noteq> [] \<and> \<not> folder_exists env (imageDirectory opts)
          then (EXIT_FAILURE, [ErrorInputDirectory])
          else if outputDirectory opts = []
          then (EXIT_FAILURE, [ErrorInvalidOutputDirectory])
          else if \<not> folder_exists env (outputDirectory opts) \<and> \<not> folder_create env (outputDirectory opts)
          then (EXIT_FAILURE, [ErrorCreateOutputDirectory])
          else if userKMatrix opts \<noteq> [] \<and> userFocalLengthPixel opts \<noteq> - 1
          then (EXIT_FAILURE, [ErrorCombineFK])
          else
            (case (if userKMatrix opts \<noteq> []
                   then checkIntrinsicStringValidity env (userKMatrix opts)
                          (userFocalLengthPixel opts, - 1, - 1)
                   else (True, userFocalLengthPixel opts, - 1, - 1)) of
               (False, _) \<Rightarrow> (EXIT_FAILURE, [ErrorInvalidKMatrix])
             | (True, focal, _) \<Rightarrow>
                 (case (if sensorDatabasePath opts \<noteq> []
                        then parseDatabase env (sensorDatabasePath opts) else Some []) of
                    None \<Rightarrow> (EXIT_FAILURE, [ErrorInvalidDatabase (sensorDatabasePath opts)])
                  | Some database \<Rightarrow>
                      (case retrieve_image_paths env opts of
                         Inl e \<Rightarrow> e
                       | Inr allImagePaths \<Rightarrow>
                           run_on_paths env (opts\<lparr> userFocalLengthPixel := focal \<rparr>)
                             userCameraModel database allImagePaths))))"

subsection \<open>Notions the theorems use\<close>

text \<open>
  An entry that \<^verbatim>\<open>listFiles\<close> cannot resolve: a path that is neither file nor folder,
  an empty folder, or a folder holding such an item.
\<close>

fun offending :: "fs_entry \<Rightarrow> bool"
and offending_items :: "(string \<times> fs_entry) list \<Rightarrow> bool" where
  "offending File = False"
| "offending (Folder allFiles) = (allFiles = [] \<or> offending_items allFiles)"
| "offending Neither = True"
| "offending_items [] = False"
| "offending_items (item # rest) = (offending (snd item) \<or> offending_items rest)"

text \<open>
  The paths of a manifest in document order: the strings of the first three levels of
  the array \<^verbatim>\<open>resources\<close>.
\<close>

fun camera_paths :: "json list \<Rightarrow> string list" where
  "camera_paths [] = []"
| "camera_paths (JString p # rest) = p # camera_paths rest"
| "camera_paths (_ # rest) = camera_paths rest"

fun group_paths :: "json list \<Rightarrow> string list" where
  "group_paths [] = []"
| "group_paths (JString p # rest) = p # group_paths rest"
| "group_paths (JArray vals # rest) = camera_paths vals @ group_paths rest"
| "group_paths (JOther # rest) = group_paths rest"

fun manifest_paths :: "json list \<Rightarrow> string list" where
  "manifest_paths [] = []"
| "manifest_paths (JString p # rest) = p # manifest_paths rest"
| "manifest_paths (JArray cams # rest) = group_paths cams @ manifest_paths rest"
| "manifest_paths (JOther # rest) = manifest_paths rest"

text \<open>What \<^verbatim>\<open>listFiles\<close> logs and finds for one path, started on empty accumulators.\<close>

definition listFiles_errors :: "collaborators \<Rightarrow> string list \<Rightarrow> string \<Rightarrow> message list" where
  "listFiles_errors env extensions p = snd (snd (listFiles_path env extensions p ([], [])))"

definition listFiles_found :: "collaborators \<Rightarrow> string list \<Rightarrow> string \<Rightarrow> string list" where
  "listFiles_found env extensions p = fst (snd (listFiles_path env extensions p ([], [])))"



text \<open>The registry holds one entry for each key, filed under the identifier of its view.\<close>

definition registry_ok :: "(nat \<times> View) list \<Rightarrow> bool" where
  "registry_ok vs = (distinct (map fst vs) \<and> list_all (\<lambda>kv. v_viewId (snd kv) = fst kv) vs)"

text \<open>The views of a registry that carry a given identifier.\<close>

definition views_with_id :: "nat \<Rightarrow> (nat \<times> View) list \<Rightarrow> View list" where
  "views_with_id u vs = filter (\<lambda>v. v_viewId v = u) (map snd vs)"

text \<open>The extension test of the manifest resolver, applied to a file name.\<close>

definition supported :: "collaborators \<Rightarrow> string \<Rightarrow> bool" where
  "supported env p = (map tolower (extension_part env p) \<in> set supportedExtensions)"

text \<open>
  The state changes of the three loops, one at a time: a frame that \<^verbatim>\<open>process_frame\<close>
  gets through, the new intrinsic identifier and the rig entry at the start of a camera,
  the advance of the rig and pose counters at the end of a rig.
\<close>

inductive steps :: "collaborators \<Rightarrow> options \<Rightarrow> EINTRINSIC \<Rightarrow> Datasheet list \<Rightarrow>
    main_state \<Rightarrow> main_state \<Rightarrow> bool"
  for env opts userCameraModel database where
  stay: "steps env opts userCameraModel database s s"
| frame: "process_frame env opts userCameraModel database groupId nbCameras cameraId
            cameraIntrincicId nbImages frameId imagePath (c, s) = Inr (c', s') \<Longrightarrow>
          steps env opts userCameraModel database s' t \<Longrightarrow>
          steps env opts userCameraModel database s t"
| camera: "steps env opts userCameraModel database
            (s\<lparr> intrinsicId := intrinsicId s + 1, rigs := r \<rparr>) t \<Longrightarrow>
           steps env opts userCameraModel database s t"
| rig_end: "steps env opts userCameraModel database
             (s\<lparr> rigId := rigId s + 1, poseId := poseId s + n \<rparr>) t \<Longrightarrow>
            steps env opts userCameraModel database s t"

text \<open>
  A view of a rig: its pose is the pose counter \<open>p\<close> of the rig plus its frame index,
  it is bound to rig \<open>r\<close> and camera \<open>cam\<close>, and it shows the image \<open>path\<close>.
\<close>

definition rig_view :: "nat \<Rightarrow> nat \<Rightarrow> nat \<Rightarrow> nat \<Rightarrow> string \<Rightarrow> View \<Rightarrow> bool" where
  "rig_view p r cam f path v =
     (v_poseId v = p + f \<and> v_rigAndSubPoseId v = Some (r, cam) \<and> v_imagePath v = path)"

text \<open>Every view of a registry is bound to an intrinsic identifier below \<open>n\<close>.\<close>

definition ids_below :: "nat \<Rightarrow> (nat \<times> View) list \<Rightarrow> bool" where
  "ids_below n vs = list_all (\<lambda>kv. v_intrinsicId (snd kv) < n) vs"

subsection \<open>A test bench\<close>

text \<open>
  Stand-ins for the collaborators, for evaluating the program on concrete inputs: a
  handful of files with their headers and EXIF tags, some manifests, a sensor database
  with one camera. The names of the camera models are those of the help text (line 585).
\<close>

definition ext_of :: "string \<Rightarrow> string" where
  "ext_of p = rev (takeWhile (\<lambda>c. c \<noteq> CHR ''.'') (rev p))"

definition join_path :: "string \<Rightarrow> string \<Rightarrow> string" where
  "join_path folder item = folder @ ''/'' @ item"

definition dir_of :: "string \<Rightarrow> string" where
  "dir_of p = rev (drop 1 (dropWhile (\<lambda>c. c \<noteq> CHR ''/'') (rev p)))"

fun split_on :: "char \<Rightarrow> string \<Rightarrow> string \<Rightarrow> string list" where
  "split_on d cur [] = [rev cur]"
| "split_on d cur (c # cs) = (if c = d then rev cur # split_on d [] cs else split_on d (c # cur) cs)"

definition no_exif :: EasyExifIO where
  "no_exif = \<lparr> doesHaveExifInfo = False, getBrand = [], getModel = [], getSerialNumber = [],
               getLensSerialNumber = [], getFocal = - 1, getExifData = Map.empty \<rparr>"

definition tagged :: "string \<Rightarrow> string \<Rightarrow> (string \<times> string) list \<Rightarrow> EasyExifIO" where
  "tagged b m tags = \<lparr> doesHaveExifInfo = True, getBrand = b, getModel = m, getSerialNumber = ''s1'',
               getLensSerialNumber = [], getFocal = 50, getExifData = map_of tags \<rparr>"

definition bench_images :: "(string \<times> (int \<times> int) \<times> EasyExifIO) list" where
  "bench_images =
     [(''photos/b.jpg'', (200, 200),
         tagged ''Canon'' ''EOS'' [(''image_width'', ''100''), (''image_height'', ''100'')]),
      (''rot.jpg'', (300, 200),
         tagged ''Canon'' ''EOS'' [(''image_width'', ''200''), (''image_height'', ''300'')]),
      (''custom.jpg'', (200, 100), tagged ''Custom'' ''radial3'' [(''image_width'', ''0'')]),
      (''zero.jpg'', (200, 100), tagged ''Canon'' ''EOS'' [(''image_width'', ''0'')]),
      (''r/a0.jpg'', (100, 100), no_exif),
      (''r/a1.jpg'', (100, 200), no_exif),
      (''r/b0.jpg'', (100, 100), no_exif),
      (''r/b1.jpg'', (100, 100), no_exif),
      (''u1.jpg'', (10, 10), tagged ''Acme'' ''X1'' []),
      (''u2.jpg'', (10, 10), tagged ''Bolt'' ''Y2'' []),
      (''u3.jpg'', (10, 10), tagged ''Acme'' ''X1'' [])]"

definition bench_manifests :: "(string \<times> json list) list" where
  "bench_manifests =
     [(''rig.json'',
         [JArray [JArray [JString ''r/a0.jpg'', JString ''r/a1.jpg''],
                  JArray [JString ''r/b0.jpg'', JString ''r/b1.jpg'']]]),
      (''sensors.json'', [JString ''u1.jpg'', JString ''u2.jpg'', JString ''u3.jpg'']),
      (''broken.json'', [JString ''missing.jpg'', JArray [JArray [JString ''emptydir'']], JString ''rot.jpg'']),
      (''twice.json'', [JString ''rot.jpg'', JString ''rot.jpg'']),
      (''one.json'', [JString ''u1.jpg'']),
      (''plain.json'', [JString ''r/a0.jpg'', JString ''r/b0.jpg'']),
      (''mixed.json'', [JString ''rot.jpg'', JString ''r/a0.jpg''])]"

definition bench_numbers :: "(string \<times> real) list" where
  "bench_numbers = [(''-1'', - 1), (''0'', 0), (''1'', 1), (''1000'', 1000), (''500'', 500), (''375'', 375)]"

definition bench_models :: "(string \<times> EINTRINSIC) list" where
  "bench_models =
     [(''pinhole'', PINHOLE_CAMERA), (''radial1'', PINHOLE_CAMERA_RADIAL1),
      (''radial3'', PINHOLE_CAMERA_RADIAL3), (''brown'', PINHOLE_CAMERA_BROWN),
      (''fisheye4'', PINHOLE_CAMERA_FISHEYE), (''fisheye1'', PINHOLE_CAMERA_FISHEYE1)]"

definition bench :: collaborators where
  "bench =
     \<lparr> extension_part = ext_of,
       create_filespec = join_path,
       folder_part = dir_of,
       entry_at = (\<lambda>p. if map_of bench_images p \<noteq> None then File
                        else if p = ''emptydir'' then Folder []
                        else Neither),
       load_json = (\<lambda>f. case map_of bench_manifests f of
                           None \<Rightarrow> FileMissing
                         | Some entries \<Rightarrow> Object (Some (JArray entries))),
       folder_exists = (\<lambda>d. d = ''photos'' \<or> d = ''out''),
       folder_create = (\<lambda>d. False),
       folder_files = (\<lambda>d. if d = ''photos'' then [''b.jpg'', ''a.txt''] else []),
       split = (\<lambda>str delim. split_on (hd delim) [] str),
       read_double = map_of bench_numbers,
       to_string = (\<lambda>x. ''number''),
       GetFormat_Unknown = (\<lambda>p. map tolower (ext_of p) \<notin> set [''jpg'', ''jpeg'', ''png'']),
       ReadImageHeader = (\<lambda>p. map_option fst (map_of bench_images p)),
       exif_open = (\<lambda>p. case map_of bench_images p of None \<Rightarrow> no_exif | Some x \<Rightarrow> snd x),
       computeUID = (\<lambda>reader p. foldl (\<lambda>h c. 3 * h + of_char c) 0 p mod 2 ^ 32),
       parseDatabase = (\<lambda>f. if f = ''sensors.db''
                            then Some [\<lparr> d_brand = ''Canon'', d_model = ''EOS'', d_sensorSize = 36 \<rparr>]
                            else None),
       getInfo = (\<lambda>b m. find (\<lambda>d. d_brand d = b \<and> d_model d = m)),
       EINTRINSIC_stringToEnum = map_of bench_models,
       EINTRINSIC_enumToString =
         (\<lambda>e. case find (\<lambda>x. snd x = e) bench_models of None \<Rightarrow> [] | Some x \<Rightarrow> fst x),
       UndefinedIndexT = 4294967295,
       GroupSharedIntrinsics = (\<lambda>sfm_data. sfm_data),
       Save = (\<lambda>sfm_data. True) \<rparr>"

definition bench_options :: options where
  "bench_options =
     \<lparr> imageDirectory = [], jsonFile = [], sensorDatabasePath = ''sensors.db'',
       outputDirectory = ''out'', userKMatrix = [], userCameraModelName = [],
       userFocalLengthPixel = - 1, userSensorWidth = - 1, userGroupCameraModel = 1 \<rparr>"

text \<open>A metadata object of the bench, and the focal length \<^verbatim>\<open>computeIntrinsic\<close> leaves in it.\<close>

definition bench_metadata :: ImageMetadata where
  "bench_metadata =
     \<lparr> m_imageAbsPath = ''u1.jpg'', m_width = 100, m_height = 80,
       m_cameraBrand = ''Acme'', m_cameraModel = ''X1'', m_serialNumber = ''s1'',
       m_metadataImageWidth = 100, m_metadataImageHeight = 80,
       m_ppx = 50, m_ppy = 40, m_ccdw = - 1, m_pxFocalLength = - 1, m_mmFocalLength = 50,
       m_haveValidMetadata = True, m_isResized = False,
       m_intrinsicType = PINHOLE_CAMERA_START, m_exifData = Map.empty \<rparr>"

definition pxFocalLength_after :: "collaborators \<Rightarrow> ImageMetadata \<Rightarrow> real option" where
  "pxFocalLength_after env md =
     (case computeIntrinsic env md of None \<Rightarrow> None | Some (intrinsic, md') \<Rightarrow> Some (m_pxFocalLength md'))"


text \<open>What to read off a run of the loops: the poses of the views and the pose counter.\<close>

definition poses :: "main_state run \<Rightarrow> nat list option" where
  "poses r = (case r of Inl e \<Rightarrow> None | Inr s \<Rightarrow> Some (map (\<lambda>kv. v_poseId (snd kv)) (views s)))"

definition pose_counter :: "main_state run \<Rightarrow> nat option" where
  "pose_counter r = (case r of Inl e \<Rightarrow> None | Inr s \<Rightarrow> Some (poseId s))"

text \<open>The locals of a camera of the bench after its first image, and the K-matrix of a test.\<close>

definition bench_camera :: camera_locals where
  "bench_camera =
     \<lparr> isCameraFirstImage = False, cameraWidth = 300, cameraHeight = 200,
       cameraExifData = Map.empty \<rparr>"

definition bench_first :: main_state where
  "bench_first = add_view bench False 0 0 0 ''rot.jpg'' ''rot.jpg'' 300 200 bench_camera initial_state"

definition bench_K_options :: options where
  "bench_K_options = bench_options\<lparr> jsonFile := ''one.json'', userKMatrix := ''-1;0;1;0;-1;1;0;0;1'' \<rparr>"

text \<open>The list of unknown sensors after a run of the loops and after one frame.\<close>

definition unknown_of :: "main_state run \<Rightarrow> sensorInfo list option" where
  "unknown_of r = (case r of Inl e \<Rightarrow> None | Inr s \<Rightarrow> Some (unknownSensorImages s))"

definition frame_unknown :: "(camera_locals \<times> main_state) run \<Rightarrow> sensorInfo list option" where
  "frame_unknown r = (case r of Inl e \<Rightarrow> None | Inr cs \<Rightarrow> Some (unknownSensorImages (snd cs)))"

definition bench_fresh :: camera_locals where
  "bench_fresh =
     \<lparr> isCameraFirstImage = True, cameraWidth = 0, cameraHeight = 0, cameraExifData = Map.empty \<rparr>"

text \<open>
  What the final count meets after a run of the loops: the focal length of each
  registered intrinsic, the intrinsic identifier of each view, and the number that lines
  1059 to 1065 compute on the container. The database of the bench, as parsed.
\<close>

definition focals :: "main_state run \<Rightarrow> real list option" where
  "focals r = (case r of Inl e \<Rightarrow> None | Inr s \<Rightarrow> Some (map (\<lambda>ki. i_focal (snd ki)) (intrinsics s)))"

definition intrinsic_ids :: "main_state run \<Rightarrow> nat list option" where
  "intrinsic_ids r = (case r of Inl e \<Rightarrow> None | Inr s \<Rightarrow> Some (map (\<lambda>kv. v_intrinsicId (snd kv)) (views s)))"

definition counted :: "collaborators \<Rightarrow> options \<Rightarrow> main_state run \<Rightarrow> nat option" where
  "counted env opts r =
     (case r of Inl e \<Rightarrow> None | Inr s \<Rightarrow> Some (viewsWithoutIntrinsic env (container env opts s)))"

definition bench_database :: "Datasheet list" where
  "bench_database = [\<lparr> d_brand = ''Canon'', d_model = ''EOS'', d_sensorSize = 36 \<rparr>]"

definition plain_options :: options where
  "plain_options = bench_options\<lparr> jsonFile := ''plain.json'', userGroupCameraModel := 0 \<rparr>"

definition mixed_options :: options where
  "mixed_options = bench_options\<lparr> jsonFile := ''mixed.json'', userGroupCameraModel := 0 \<rparr>"

section \<open>The manifest resolver\<close>

lemmas bench_defs = bench_def bench_images_def bench_manifests_def bench_numbers_def
  bench_models_def bench_options_def no_exif_def tagged_def ext_of_def join_path_def dir_of_def

text \<open>
  \<^verbatim>\<open>listFiles\<close> only appends: its flag, the files it finds and what it logs do not
  depend on the accumulators it is started on.
\<close>

lemma listFiles_appends:
  fixes acc :: "string list \<times> message list"
  shows "\<exists>b f m. \<forall>rs lg. listFiles ext mk exts p e (rs, lg) = (b, rs @ f, lg @ m)"
    and "\<exists>b f m. \<forall>rs lg. listFiles_items ext mk exts p items (rs, lg) = (b, rs @ f, lg @ m)"
proof (induction ext mk exts p e acc and ext mk exts p items acc
    rule: listFiles_listFiles_items.induct)
  case (1 ext mk extensions folderOrFile resources lg)
  show ?case
    by (cases "map tolower (ext folderOrFile) \<in> set extensions") (auto simp: Let_def)
next
  case (2 ext mk extensions folderOrFile allFiles resources lg)
  then show ?case by (cases "allFiles = []") auto
next
  case (3 ext mk extensions folderOrFile resources lg)
  show ?case by auto
next
  case (4 ext mk extensions folderOrFile acc)
  show ?case by auto
next
  case (5 ext mk extensions folderOrFile item rest acc)
  obtain b f m where h: "\<And>rs lg.
      listFiles ext mk extensions (mk folderOrFile (fst item)) (snd item) (rs, lg) = (b, rs @ f, lg @ m)"
    using "5.IH"(1) by blast
  show ?case
  proof (cases b)
    case False
    have "\<forall>rs lg. listFiles_items ext mk extensions folderOrFile (item # rest) (rs, lg) =
        (False, rs @ f, lg @ m)"
      using h False by simp
    then show ?thesis by blast
  next
    case True
    have "(True, fst acc @ f, snd acc @ m) =
        listFiles ext mk extensions (mk folderOrFile (fst item)) (snd item) acc"
      using h [of "fst acc" "snd acc"] True by simp
    from "5.IH"(2) [OF this refl]
    obtain b' f' m' where h': "\<And>rs lg.
        listFiles_items ext mk extensions folderOrFile rest (rs, lg) = (b', rs @ f', lg @ m')"
      by blast
    have "\<forall>rs lg. listFiles_items ext mk extensions folderOrFile (item # rest) (rs, lg) =
        (b', rs @ (f @ f'), lg @ (m @ m'))"
      using h h' True by simp
    then show ?thesis by blast
  qed
qed

lemma listFiles_acc:
  "listFiles ext mk exts p e (rs, lg) =
     (fst (listFiles ext mk exts p e ([], [])),
      rs @ fst (snd (listFiles ext mk exts p e ([], []))),
      lg @ snd (snd (listFiles ext mk exts p e ([], []))))"
proof -
  obtain b f m where h: "\<And>rs lg. listFiles ext mk exts p e (rs, lg) = (b, rs @ f, lg @ m)"
    using listFiles_appends(1) [of ext mk exts p e] by blast
  show ?thesis using h [of rs lg] h [of "[]" "[]"] by simp
qed

text \<open>The flag is false exactly on an offending entry, and exactly then a message is logged.\<close>

lemma listFiles_flag:
  "fst (listFiles ext mk exts p e acc) = (\<not> offending e)"
  "fst (listFiles_items ext mk exts p items acc) = (\<not> offending_items items)"
  by (induction ext mk exts p e acc and ext mk exts p items acc rule: listFiles_listFiles_items.induct)
     (auto simp: Let_def split: prod.splits bool.splits)

lemma listFiles_flagD:
  "listFiles ext mk exts p e acc = (b, acc') \<Longrightarrow> b = (\<not> offending e)"
  using listFiles_flag(1) [of ext mk exts p e acc] by simp

lemma listFiles_silent:
  "(snd (snd (listFiles ext mk exts p e acc)) = snd acc) = (\<not> offending e)"
  "(snd (snd (listFiles_items ext mk exts p items acc)) = snd acc) = (\<not> offending_items items)"
proof (induction ext mk exts p e acc and ext mk exts p items acc
    rule: listFiles_listFiles_items.induct)
  case (5 ext mk extensions folderOrFile item rest acc)
  obtain b acc' where r:
    "listFiles ext mk extensions (mk folderOrFile (fst item)) (snd item) acc = (b, acc')"
    by (cases "listFiles ext mk extensions (mk folderOrFile (fst item)) (snd item) acc")
  have b: "b = (\<not> offending (snd item))" using listFiles_flagD [OF r] .
  have one: "(snd acc' = snd acc) = (\<not> offending (snd item))" using "5.IH"(1) r by simp
  show ?case
  proof (cases b)
    case False
    then show ?thesis using r b one by simp
  next
    case True
    have eq: "(True, acc') =
        listFiles ext mk extensions (mk folderOrFile (fst item)) (snd item) acc"
      using r True by simp
    have "(snd (snd (listFiles_items ext mk extensions folderOrFile rest acc')) = snd acc') =
        (\<not> offending_items rest)"
      using "5.IH"(2) [OF eq refl] .
    then show ?thesis using r b one True by simp
  qed
qed (auto simp: Let_def)

lemma listFiles_path_acc:
  "listFiles_path env exts p (rs, lg) =
     (\<not> offending (entry_at env p), rs @ listFiles_found env exts p, lg @ listFiles_errors env exts p)"
  unfolding listFiles_path_def listFiles_found_def listFiles_errors_def
  by (subst listFiles_acc) (simp add: listFiles_flag)

lemma listFiles_errors_Nil:
  "(listFiles_errors env exts p = []) = (\<not> offending (entry_at env p))"
  unfolding listFiles_errors_def listFiles_path_def
  using listFiles_silent(1) [of "extension_part env" "create_filespec env" exts p "entry_at env p" "([], [])"]
  by simp

text \<open>Each loop of \<^verbatim>\<open>retrieveResources\<close> visits all its paths, whatever the flag is.\<close>

lemma rig_camera_loop_eq:
  "rig_camera_loop env exts vals (can, rs, lg) =
     (can \<and> (\<forall>p\<in>set (camera_paths vals). \<not> offending (entry_at env p)),
      rs @ concat (map (listFiles_found env exts) (camera_paths vals)),
      lg @ concat (map (listFiles_errors env exts) (camera_paths vals)))"
proof (induction vals arbitrary: can rs lg)
  case Nil
  then show ?case by simp
next
  case (Cons v vals)
  then show ?case by (cases v) (auto simp: listFiles_path_acc)
qed

lemma group_loop_eq:
  "\<exists>ippc iip. group_loop env exts cams (can, ippc0, iip0, lg) =
     (can \<and> (\<forall>p\<in>set (group_paths cams). \<not> offending (entry_at env p)),
      ippc, iip,
      lg @ concat (map (listFiles_errors env exts) (group_paths cams)))"
proof (induction cams arbitrary: can ippc0 iip0 lg)
  case Nil
  then show ?case by simp
next
  case (Cons c cams)
  show ?case
  proof (cases c)
    case (JString p)
    obtain ippc iip where "group_loop env exts cams
        (can \<and> \<not> offending (entry_at env p), ippc0, iip0 @ listFiles_found env exts p,
         lg @ listFiles_errors env exts p) =
      ((can \<and> \<not> offending (entry_at env p)) \<and> (\<forall>p\<in>set (group_paths cams). \<not> offending (entry_at env p)),
       ippc, iip,
       (lg @ listFiles_errors env exts p) @ concat (map (listFiles_errors env exts) (group_paths cams)))"
      using Cons.IH by blast
    then show ?thesis using JString by (auto simp: listFiles_path_acc)
  next
    case (JArray vals)
    let ?can = "can \<and> (\<forall>p\<in>set (camera_paths vals). \<not> offending (entry_at env p))"
    let ?lg = "lg @ concat (map (listFiles_errors env exts) (camera_paths vals))"
    obtain ippc iip where "group_loop env exts cams
        (?can, ippc0 @ [concat (map (listFiles_found env exts) (camera_paths vals))], iip0, ?lg) =
      (?can \<and> (\<forall>p\<in>set (group_paths cams). \<not> offending (entry_at env p)),
       ippc, iip, ?lg @ concat (map (listFiles_errors env exts) (group_paths cams)))"
      using Cons.IH by blast
    then show ?thesis using JArray by (auto simp: rig_camera_loop_eq)
  next
    case JOther
    then show ?thesis using Cons.IH [of can ippc0 iip0 lg] by simp
  qed
qed

lemma resources_loop_eq:
  "\<exists>rs. resources_loop env exts entries (can, rs0, lg) =
     (can \<and> (\<forall>p\<in>set (manifest_paths entries). \<not> offending (entry_at env p)),
      rs,
      lg @ concat (map (listFiles_errors env exts) (manifest_paths entries)))"
proof (induction entries arbitrary: can rs0 lg)
  case Nil
  then show ?case by simp
next
  case (Cons e entries)
  show ?case
  proof (cases e)
    case (JString p)
    obtain rs where "resources_loop env exts entries
        (can \<and> \<not> offending (entry_at env p),
         rs0 @ map (\<lambda>path. [[path]]) (listFiles_found env exts p),
         lg @ listFiles_errors env exts p) =
      ((can \<and> \<not> offending (entry_at env p)) \<and> (\<forall>p\<in>set (manifest_paths entries). \<not> offending (entry_at env p)),
       rs,
       (lg @ listFiles_errors env exts p) @ concat (map (listFiles_errors env exts) (manifest_paths entries)))"
      using Cons.IH by blast
    then show ?thesis using JString by (auto simp: listFiles_path_acc)
  next
    case (JArray cams)
    let ?can = "can \<and> (\<forall>p\<in>set (group_paths cams). \<not> offending (entry_at env p))"
    let ?lg = "lg @ concat (map (listFiles_errors env exts) (group_paths cams))"
    obtain ippc iip where g: "group_loop env exts cams (can, [], [], lg) = (?can, ippc, iip, ?lg)"
      using group_loop_eq by blast
    obtain rs where "resources_loop env exts entries
        (?can, rs0 @ [if iip \<noteq> [] then ippc @ [iip] else ippc], ?lg) =
      (?can \<and> (\<forall>p\<in>set (manifest_paths entries). \<not> offending (entry_at env p)),
       rs, ?lg @ concat (map (listFiles_errors env exts) (manifest_paths entries)))"
      using Cons.IH by blast
    then show ?thesis using JArray g by auto
  next
    case JOther
    then show ?thesis using Cons.IH [of can rs0 lg] by simp
  qed
qed

text \<open>
  Claim C9. In manifest mode, when the manifest holds a path that cannot be resolved or an
  empty folder, \<^verbatim>\<open>retrieveResources\<close> returns false, and it does so after all entries:
  the log it returns is, in document order, what \<^verbatim>\<open>listFiles\<close> reports for each path of
  the manifest, and each offending path has a message there. (Inside one folder
  \<^verbatim>\<open>listFiles\<close> itself stops at its first offending item.)
\<close>

theorem manifest_failure_after_every_entry:
  assumes "load_json env file = Object (Some (JArray entries))"
  shows "(\<exists>rs. retrieveResources env file exts =
            Inr (\<not> (\<exists>p\<in>set (manifest_paths entries). offending (entry_at env p)), rs,
                 concat (map (listFiles_errors env exts) (manifest_paths entries))))
       \<and> (\<forall>p\<in>set (manifest_paths entries).
            offending (entry_at env p) \<longrightarrow> listFiles_errors env exts p \<noteq> [])"
proof -
  obtain rs where "resources_loop env exts entries (True, [], []) =
      (True \<and> (\<forall>p\<in>set (manifest_paths entries). \<not> offending (entry_at env p)), rs,
       [] @ concat (map (listFiles_errors env exts) (manifest_paths entries)))"
    using resources_loop_eq by blast
  then show ?thesis using assms by (simp add: retrieveResources_def listFiles_errors_Nil)
qed

theorem manifest_failure_after_every_entry_witness:
  "load_json bench ''broken.json'' =
     Object (Some (JArray [JString ''missing.jpg'', JArray [JArray [JString ''emptydir'']], JString ''rot.jpg'']))
   \<and> (\<exists>rs. retrieveResources bench ''broken.json'' supportedExtensions =
         Inr (False, rs, [ErrorNotValidPath ''missing.jpg'', ErrorFolderEmpty ''emptydir'']))"
proof -
  have l: "load_json bench ''broken.json'' =
      Object (Some (JArray [JString ''missing.jpg'', JArray [JArray [JString ''emptydir'']], JString ''rot.jpg'']))"
    by (simp add: bench_defs)
  have e: "listFiles_errors bench supportedExtensions ''missing.jpg'' = [ErrorNotValidPath ''missing.jpg'']"
    "listFiles_errors bench supportedExtensions ''emptydir'' = [ErrorFolderEmpty ''emptydir'']"
    "listFiles_errors bench supportedExtensions ''rot.jpg'' = []"
    by (simp_all add: listFiles_errors_def listFiles_path_def supportedExtensions_def bench_defs)
  have o: "offending (entry_at bench ''missing.jpg'')"
    by (simp add: bench_defs)
  show ?thesis
    using manifest_failure_after_every_entry [OF l, of supportedExtensions] e o l by auto
qed

section \<open>Directory mode\<close>

text \<open>
  Claim C3, as amended. In directory mode every file of the folder, whatever its extension,
  becomes one group of one camera with one frame; the groups follow the sorted file names.
  The run fails when the folder lists no file or does not exist. A file whose format the
  image reader does not know is passed over in the loop with a warning and adds no view.
\<close>

theorem directory_one_group_per_file:
  "(folder_files env dir \<noteq> [] \<longrightarrow>
      (\<exists>groups. directory_resources env dir = Inr groups
         \<and> groups = map (\<lambda>imagePath. [[imagePath]]) (sort (folder_files env dir))
         \<and> length groups = length (folder_files env dir)
         \<and> sorted (concat (concat groups))
         \<and> set (concat (concat groups)) = set (folder_files env dir)))
   \<and> (folder_files env dir = [] \<longrightarrow>
        directory_resources env dir = Inl (EXIT_FAILURE, [ErrorCantFindImagePaths dir]))
   \<and> (imageDirectory opts \<noteq> [] \<and> \<not> folder_exists env (imageDirectory opts) \<longrightarrow>
        fst (main env opts) \<noteq> EXIT_SUCCESS)
   \<and> (GetFormat_Unknown env (create_filespec env (imageDirectory opts) imagePath)
        \<and> imageDirectory opts \<noteq> [] \<longrightarrow>
        process_frame env opts userCameraModel database groupId nbCameras cameraId
          cameraIntrincicId nbImages frameId imagePath (c, s) =
        Inr (c, s\<lparr> log := log s @
               [WarningUnknownFormat (create_filespec env (imageDirectory opts) imagePath)] \<rparr>))"
proof -
  have flat: "concat (concat (map (\<lambda>imagePath. [[imagePath]]) xs)) = xs" for xs :: "string list"
    by (induction xs) simp_all
  have a: "folder_files env dir \<noteq> [] \<longrightarrow>
      (\<exists>groups. directory_resources env dir = Inr groups
         \<and> groups = map (\<lambda>imagePath. [[imagePath]]) (sort (folder_files env dir))
         \<and> length groups = length (folder_files env dir)
         \<and> sorted (concat (concat groups))
         \<and> set (concat (concat groups)) = set (folder_files env dir))"
    by (simp add: directory_resources_def flat)
  have b: "folder_files env dir = [] \<longrightarrow>
        directory_resources env dir = Inl (EXIT_FAILURE, [ErrorCantFindImagePaths dir])"
    by (simp add: directory_resources_def)
  have c: "imageDirectory opts \<noteq> [] \<and> \<not> folder_exists env (imageDirectory opts) \<longrightarrow>
        fst (main env opts) \<noteq> EXIT_SUCCESS"
    by (simp add: main_def split: option.splits)
  have d: "GetFormat_Unknown env (create_filespec env (imageDirectory opts) imagePath)
        \<and> imageDirectory opts \<noteq> [] \<longrightarrow>
        process_frame env opts userCameraModel database groupId nbCameras cameraId
          cameraIntrincicId nbImages frameId imagePath (c, s) =
        Inr (c, s\<lparr> log := log s @
               [WarningUnknownFormat (create_filespec env (imageDirectory opts) imagePath)] \<rparr>)"
    by (simp add: process_frame_def)
  show ?thesis using a b c d by blast
qed

theorem directory_unsupported_file_counterexample:
  "folder_files bench ''photos'' = [''b.jpg'', ''a.txt'']
   \<and> supported bench ''b.jpg'' \<and> \<not> supported bench ''a.txt''
   \<and> directory_resources bench ''photos'' = Inr [[[''a.txt'']], [[''b.jpg'']]]"
  by (simp add: directory_resources_def supported_def supportedExtensions_def tolower_def bench_defs)

theorem directory_one_group_per_file_witness:
  "folder_files bench ''photos'' \<noteq> []
   \<and> directory_resources bench ''photos'' = Inr [[[''a.txt'']], [[''b.jpg'']]]
   \<and> GetFormat_Unknown bench (create_filespec bench ''photos'' ''a.txt'')
   \<and> process_frame bench (bench_options\<lparr> imageDirectory := ''photos'' \<rparr>) PINHOLE_CAMERA_START [] 0 1 0 0 1 0
        ''a.txt'' (\<lparr> isCameraFirstImage = True, cameraWidth = 0, cameraHeight = 0,
                    cameraExifData = Map.empty \<rparr>, initial_state) =
      Inr (\<lparr> isCameraFirstImage = True, cameraWidth = 0, cameraHeight = 0,
                    cameraExifData = Map.empty \<rparr>,
           initial_state\<lparr> log := [WarningUnknownFormat ''photos/a.txt''] \<rparr>)
   \<and> fst (main bench (bench_options\<lparr> imageDirectory := ''nowhere'' \<rparr>)) \<noteq> EXIT_SUCCESS"
proof -
  have f: "folder_files bench ''photos'' = [''b.jpg'', ''a.txt'']"
    by (simp add: bench_defs)
  have srt: "sort [''b.jpg'', ''a.txt''] = [''a.txt'', ''b.jpg'']"
    by simp
  have u: "GetFormat_Unknown bench (create_filespec bench ''photos'' ''a.txt'')"
    by (simp add: bench_defs tolower_def)
  have fs: "create_filespec bench ''photos'' ''a.txt'' = ''photos/a.txt''"
    by (simp add: bench_defs)
  have o: "imageDirectory (bench_options\<lparr> imageDirectory := ''photos'' \<rparr>) = ''photos''"
    "imageDirectory (bench_options\<lparr> imageDirectory := ''nowhere'' \<rparr>) = ''nowhere''"
    by simp_all
  have n: "\<not> folder_exists bench ''nowhere''"
    by (simp add: bench_defs)
  have l: "log initial_state = []" by (simp add: initial_state_def)
  show ?thesis
    using directory_one_group_per_file [of bench "''photos''"
        "bench_options\<lparr> imageDirectory := ''photos'' \<rparr>" "''a.txt''"
        PINHOLE_CAMERA_START "[]" 0 1 0 0 1 0
        "\<lparr> isCameraFirstImage = True, cameraWidth = 0, cameraHeight = 0, cameraExifData = Map.empty \<rparr>"
        initial_state]
      directory_one_group_per_file [of bench "''photos''"
        "bench_options\<lparr> imageDirectory := ''nowhere'' \<rparr>"]
      f srt u fs o n l
    by simp
qed


section \<open>The focal length in pixels\<close>

text \<open>
  Claim C7, as amended. \<^verbatim>\<open>computeIntrinsic\<close> computes the focal length in pixels as
  the larger metadata dimension times the focal length in millimetres over the sensor
  width exactly when the value on entry is the sentinel \<open>-1\<close>, the focal length in
  millimetres is positive and the sensor width is not the sentinel \<open>-1\<close>; in every other
  case the value on entry is kept, so it stays \<open>-1\<close> when the focal length in millimetres
  is not positive. The sensor width is whatever \<^verbatim>\<open>setSensorWidth\<close> was given: its sign
  is not tested.
\<close>

theorem pixel_focal_length_computed:
  "compute_pxFocalLength md =
     (if m_pxFocalLength md = - 1 \<and> 0 < m_mmFocalLength md \<and> m_ccdw md \<noteq> - 1
      then real_of_int (max (m_metadataImageWidth md) (m_metadataImageHeight md))
             * m_mmFocalLength md / m_ccdw md
      else m_pxFocalLength md)
   \<and> (\<forall>intrinsic md'. computeIntrinsic env md = Some (intrinsic, md') \<longrightarrow>
         m_pxFocalLength md' = compute_pxFocalLength md
         \<and> i_focal intrinsic = compute_pxFocalLength md
         \<and> i_initialFocalLengthPix intrinsic = compute_pxFocalLength md)
   \<and> (m_intrinsicType md \<noteq> PINHOLE_CAMERA_START \<or> m_cameraBrand md \<noteq> ''Custom'' \<longrightarrow>
         computeIntrinsic env md \<noteq> None)
   \<and> m_ccdw (setSensorWidth env sensorWidth md) = sensorWidth
   \<and> m_pxFocalLength (setSensorWidth env sensorWidth md) = m_pxFocalLength md"
proof -
  have a: "compute_pxFocalLength md =
     (if m_pxFocalLength md = - 1 \<and> 0 < m_mmFocalLength md \<and> m_ccdw md \<noteq> - 1
      then real_of_int (max (m_metadataImageWidth md) (m_metadataImageHeight md))
             * m_mmFocalLength md / m_ccdw md
      else m_pxFocalLength md)"
    by (simp add: compute_pxFocalLength_def)
  have b: "\<forall>intrinsic md'. computeIntrinsic env md = Some (intrinsic, md') \<longrightarrow>
         m_pxFocalLength md' = compute_pxFocalLength md
         \<and> i_focal intrinsic = compute_pxFocalLength md
         \<and> i_initialFocalLengthPix intrinsic = compute_pxFocalLength md"
    by (auto simp: computeIntrinsic_def Let_def split: option.splits)
  have c: "m_intrinsicType md \<noteq> PINHOLE_CAMERA_START \<or> m_cameraBrand md \<noteq> ''Custom'' \<longrightarrow>
         computeIntrinsic env md \<noteq> None"
    by (auto simp: computeIntrinsic_def choose_intrinsicType_def Let_def split: option.splits)
  have d: "m_ccdw (setSensorWidth env sensorWidth md) = sensorWidth
      \<and> m_pxFocalLength (setSensorWidth env sensorWidth md) = m_pxFocalLength md"
    by (simp add: setSensorWidth_def)
  show ?thesis using a b c d by blast
qed

theorem pixel_focal_length_negative_sensor_counterexample:
  "m_ccdw (setSensorWidth bench (- 2) bench_metadata) = - 2
   \<and> pxFocalLength_after bench (setSensorWidth bench (- 2) bench_metadata) = Some (- 2500)"
  by (simp add: pxFocalLength_after_def computeIntrinsic_def compute_pxFocalLength_def
      choose_intrinsicType_def setSensorWidth_def bench_metadata_def Let_def)

theorem pixel_focal_length_computed_witness:
  "pxFocalLength_after bench (setSensorWidth bench 25 bench_metadata) = Some 200
   \<and> pxFocalLength_after bench (setSensorWidth bench 25 (bench_metadata\<lparr> m_mmFocalLength := 0 \<rparr>)) = Some (- 1)
   \<and> pxFocalLength_after bench bench_metadata = Some (- 1)"
proof -
  have 1: "pxFocalLength_after bench (setSensorWidth bench 25 bench_metadata) = Some 200"
    using pixel_focal_length_computed [of "setSensorWidth bench 25 bench_metadata" bench 25]
    by (simp add: pxFocalLength_after_def computeIntrinsic_def compute_pxFocalLength_def
      choose_intrinsicType_def setSensorWidth_def bench_metadata_def Let_def)
  have 2: "pxFocalLength_after bench (setSensorWidth bench 25 (bench_metadata\<lparr> m_mmFocalLength := 0 \<rparr>)) = Some (- 1)"
    using pixel_focal_length_computed [of "setSensorWidth bench 25 (bench_metadata\<lparr> m_mmFocalLength := 0 \<rparr>)" bench 25]
    by (simp add: pxFocalLength_after_def computeIntrinsic_def compute_pxFocalLength_def
      choose_intrinsicType_def setSensorWidth_def bench_metadata_def Let_def)
  have 3: "pxFocalLength_after bench bench_metadata = Some (- 1)"
    using pixel_focal_length_computed [of bench_metadata bench 25]
    by (simp add: pxFocalLength_after_def computeIntrinsic_def compute_pxFocalLength_def
      choose_intrinsicType_def setSensorWidth_def bench_metadata_def Let_def)
  show ?thesis using 1 2 3 by simp
qed


section \<open>Resize detection and the camera model\<close>





section \<open>The assignment loops\<close>

lemma first_image_effect:
  assumes "first_image env opts ucm db groupId cameraId isRig isGroup iid imagePath ap folder w h s = Inr (c', s')"
  shows "views s' = views s" "poseId s' = poseId s" "rigId s' = rigId s" "log s' = log s"
    "intrinsicId s' = intrinsicId s" "nbCurrImages s' = nbCurrImages s"
  using assms
  by (auto simp: first_image_def Let_def split: option.splits prod.splits if_splits)

lemma add_view_cases:
  "(add_view env isRig cameraId iid frameId imagePath ap w h c s = s\<lparr> log := log s @ [WarningDuplicate ap] \<rparr>
      \<and> map_of (views s) (computeUID env (exif_open env ap) imagePath) \<noteq> None)
   \<or> (\<exists>v. add_view env isRig cameraId iid frameId imagePath ap w h c s =
          s\<lparr> views := views s @ [(computeUID env (exif_open env ap) imagePath, v)],
             poseId := (if isRig then poseId s else poseId s + 1),
             nbCurrImages := nbCurrImages s + 1 \<rparr>
        \<and> map_of (views s) (computeUID env (exif_open env ap) imagePath) = None
        \<and> v_viewId v = computeUID env (exif_open env ap) imagePath
        \<and> v_poseId v = (if isRig then poseId s + frameId else poseId s)
        \<and> v_rigAndSubPoseId v = (if isRig then Some (rigId s, cameraId) else None)
        \<and> v_imagePath v = imagePath \<and> v_intrinsicId v = iid)"
proof (cases "map_of (views s) (computeUID env (exif_open env ap) imagePath) = None")
  case False
  then show ?thesis by (simp add: add_view_def Let_def)
next
  case True
  let ?v = "\<lparr> v_imagePath = imagePath,
             v_viewId = computeUID env (exif_open env ap) imagePath,
             v_intrinsicId = iid,
             v_poseId = (if isRig then poseId s + frameId else poseId s),
             v_width = w, v_height = h, v_metadata = cameraExifData c,
             v_rigAndSubPoseId = (if isRig then Some (rigId s, cameraId) else None) \<rparr>"
  have "add_view env isRig cameraId iid frameId imagePath ap w h c s =
          s\<lparr> views := views s @ [(computeUID env (exif_open env ap) imagePath, ?v)],
             poseId := (if isRig then poseId s else poseId s + 1),
             nbCurrImages := nbCurrImages s + 1 \<rparr>"
    using True by (simp add: add_view_def Let_def)
  moreover have "v_viewId ?v = computeUID env (exif_open env ap) imagePath
        \<and> v_poseId ?v = (if isRig then poseId s + frameId else poseId s)
        \<and> v_rigAndSubPoseId ?v = (if isRig then Some (rigId s, cameraId) else None)
        \<and> v_imagePath ?v = imagePath \<and> v_intrinsicId ?v = iid"
    by simp
  ultimately show ?thesis using True by blast
qed

text \<open>What one frame does to the registry and the counters.\<close>

lemma process_frame_effect:
  assumes "process_frame env opts ucm db groupId nbCameras cameraId iid nbImages frameId imagePath (c, s) = Inr (c', s')"
  shows "rigId s' = rigId s \<and> intrinsicId s' = intrinsicId s
     \<and> ((views s' = views s \<and> poseId s' = poseId s)
       \<or> (\<exists>k v. views s' = views s @ [(k, v)] \<and> map_of (views s) k = None \<and> v_viewId v = k
             \<and> poseId s' = (if 1 < nbCameras then poseId s else poseId s + 1)
             \<and> v_poseId v = (if 1 < nbCameras then poseId s + frameId else poseId s)
             \<and> v_rigAndSubPoseId v = (if 1 < nbCameras then Some (rigId s, cameraId) else None)
             \<and> v_imagePath v = imagePath \<and> v_intrinsicId v = iid))"
proof -
  let ?abs = "if imageDirectory opts = [] then imagePath else create_filespec env (imageDirectory opts) imagePath"
  show ?thesis
  proof (cases "GetFormat_Unknown env ?abs")
    case True
    then show ?thesis using assms by (auto simp: process_frame_def Let_def)
  next
    case False
    show ?thesis
    proof (cases "ReadImageHeader env ?abs")
      case None
      then show ?thesis using assms False by (auto simp: process_frame_def Let_def)
    next
      case (Some wh)
      obtain w h where wh: "wh = (w, h)" by (cases wh)
      show ?thesis
      proof (cases "w \<le> 0 \<or> h \<le> 0")
        case True
        then show ?thesis using assms False Some wh by (auto simp: process_frame_def Let_def)
      next
        case pos: False
        obtain c1 s1 where mid:
          "(if isCameraFirstImage c
            then first_image env opts ucm db groupId cameraId (1 < nbCameras) (1 < nbImages) iid
                   imagePath ?abs (folder_part env ?abs) w h s
            else if w \<noteq> cameraWidth c \<and> h \<noteq> cameraHeight c
            then Inl (EXIT_FAILURE, log s @ [ErrorRigDimensions])
            else Inr (c, s)) = Inr (c1, s1)"
          and fin: "s' = add_view env (1 < nbCameras) cameraId iid frameId imagePath ?abs w h c1 s1"
          using assms False Some wh pos
          by (auto simp: process_frame_def Let_def split: sum.splits if_splits)
        have keep: "views s1 = views s" "poseId s1 = poseId s" "rigId s1 = rigId s"
          "intrinsicId s1 = intrinsicId s"
          using mid first_image_effect [of env opts ucm db groupId cameraId "1 < nbCameras" "1 < nbImages"
              iid imagePath ?abs "folder_part env ?abs" w h s c1 s1]
          by (auto split: if_splits)
        show ?thesis
          using add_view_cases [of env "1 < nbCameras" cameraId iid frameId imagePath ?abs w h c1 s1]
            fin keep
          by (elim disjE exE conjE) auto
      qed
    qed
  qed
qed


lemma steps_trans:
  "steps env opts ucm db s t \<Longrightarrow> steps env opts ucm db t u \<Longrightarrow> steps env opts ucm db s u"
  by (induction rule: steps.induct) (auto intro: steps.intros)

lemma frame_loop_steps:
  "frame_loop env opts ucm db groupId nbCameras cameraId iid nbImages frameId frames (c, s) = Inr (c', s')
   \<Longrightarrow> steps env opts ucm db s s'"
proof (induction frames arbitrary: frameId c s)
  case Nil
  then show ?case by (auto intro: steps.stay)
next
  case (Cons imagePath rest)
  then obtain c1 s1 where
    one: "process_frame env opts ucm db groupId nbCameras cameraId iid nbImages frameId imagePath (c, s) = Inr (c1, s1)"
    and more: "frame_loop env opts ucm db groupId nbCameras cameraId iid nbImages (Suc frameId) rest (c1, s1) = Inr (c', s')"
    by (auto split: sum.splits)
  show ?case using steps.frame [OF one Cons.IH [OF more]] .
qed

lemma process_camera_steps:
  assumes "process_camera env opts ucm db groupId nbCameras cameraId cameraImagePaths s = Inr s'"
  shows "steps env opts ucm db s s'"
proof -
  let ?r = "if 1 < nbCameras then AList.update (rigId s) nbCameras (rigs s) else rigs s"
  let ?c0 = "\<lparr> isCameraFirstImage = True, cameraWidth = 0, cameraHeight = 0, cameraExifData = Map.empty \<rparr>"
  have eq: "(if 1 < nbCameras
             then s\<lparr> intrinsicId := intrinsicId s + 1 \<rparr>
                   \<lparr> rigs := AList.update (rigId (s\<lparr> intrinsicId := intrinsicId s + 1 \<rparr>)) nbCameras
                              (rigs (s\<lparr> intrinsicId := intrinsicId s + 1 \<rparr>)) \<rparr>
             else s\<lparr> intrinsicId := intrinsicId s + 1 \<rparr>) =
            s\<lparr> intrinsicId := intrinsicId s + 1, rigs := ?r \<rparr>"
    by simp
  obtain c' where "frame_loop env opts ucm db groupId nbCameras cameraId (intrinsicId s)
      (length cameraImagePaths) 0 cameraImagePaths (?c0, s\<lparr> intrinsicId := intrinsicId s + 1, rigs := ?r \<rparr>) = Inr (c', s')"
    using assms unfolding process_camera_def Let_def eq by (auto split: sum.splits)
  from frame_loop_steps [OF this] show ?thesis by (rule steps.camera)
qed

lemma camera_loop_steps:
  "camera_loop env opts ucm db groupId nbCameras cameraId cams s = Inr s' \<Longrightarrow> steps env opts ucm db s s'"
proof (induction cams arbitrary: cameraId s)
  case Nil
  then show ?case by (auto intro: steps.stay)
next
  case (Cons cam rest)
  then obtain s1 where
    one: "process_camera env opts ucm db groupId nbCameras cameraId cam s = Inr s1"
    and more: "camera_loop env opts ucm db groupId nbCameras (Suc cameraId) rest s1 = Inr s'"
    by (auto split: sum.splits)
  show ?case using steps_trans [OF process_camera_steps [OF one] Cons.IH [OF more]] .
qed

lemma process_group_steps:
  assumes "process_group env opts ucm db groupId groupImagePaths s = Inr s'"
  shows "steps env opts ucm db s s'"
proof -
  obtain s1 where
    one: "camera_loop env opts ucm db groupId (length groupImagePaths) 0 groupImagePaths s = Inr s1"
    and fin: "s' = (if 1 < length groupImagePaths
                    then s1\<lparr> rigId := rigId s1 + 1, poseId := poseId s1 + length (hd groupImagePaths) \<rparr>
                    else s1)"
    using assms by (auto simp: process_group_def Let_def split: sum.splits)
  have "steps env opts ucm db s1 s'"
    unfolding fin
    using steps.rig_end [OF steps.stay, of env opts ucm db s1 "length (hd groupImagePaths)"]
      steps.stay [of env opts ucm db s1]
    by simp
  then show ?thesis using steps_trans [OF camera_loop_steps [OF one]] by blast
qed

lemma image_listing_steps:
  "image_listing env opts ucm db groupId groups s = Inr s' \<Longrightarrow> steps env opts ucm db s s'"
proof (induction groups arbitrary: groupId s)
  case Nil
  then show ?case by (auto intro: steps.stay)
next
  case (Cons g rest)
  then obtain s1 where
    one: "process_group env opts ucm db groupId g s = Inr s1"
    and more: "image_listing env opts ucm db (Suc groupId) rest s1 = Inr s'"
    by (auto split: sum.splits)
  show ?case using steps_trans [OF process_group_steps [OF one] Cons.IH [OF more]] .
qed

text \<open>Views are only added, and a new view never gets a pose below the counter.\<close>

lemma steps_views_grow:
  "steps env opts ucm db s t \<Longrightarrow>
     poseId s \<le> poseId t \<and>
     (\<exists>new. views t = views s @ new \<and> (\<forall>kv\<in>set new. poseId s \<le> v_poseId (snd kv)))"
proof (induction rule: steps.induct)
  case (stay s)
  then show ?case by simp
next
  case (frame groupId nbCameras cameraId cameraIntrincicId nbImages frameId imagePath c s c' s' t)
  obtain new where new: "views t = views s' @ new" "\<forall>kv\<in>set new. poseId s' \<le> v_poseId (snd kv)"
    and le: "poseId s' \<le> poseId t"
    using frame.IH by blast
  from process_frame_effect [OF frame.hyps(1)]
  consider "views s' = views s" "poseId s' = poseId s"
    | k v where "views s' = views s @ [(k, v)]" "poseId s \<le> poseId s'" "poseId s \<le> v_poseId v"
    by (auto split: if_splits)
  then show ?case
  proof cases
    case 1
    then show ?thesis using new le by auto
  next
    case 2
    have "views t = views s @ ((k, v) # new)" using 2 new by simp
    moreover have "\<forall>kv\<in>set ((k, v) # new). poseId s \<le> v_poseId (snd kv)"
      using 2 new by fastforce
    ultimately show ?thesis using 2 le by (metis le_trans)
  qed
next
  case (camera s r t)
  then show ?case by simp
next
  case (rig_end s n t)
  then obtain new where "views t = views s @ new"
    "\<forall>kv\<in>set new. poseId s + n \<le> v_poseId (snd kv)" "poseId s + n \<le> poseId t"
    by auto
  then show ?case by (metis add_leD1)
qed

lemma registry_ok_snoc:
  "registry_ok vs \<Longrightarrow> map_of vs k = None \<Longrightarrow> v_viewId v = k \<Longrightarrow> registry_ok (vs @ [(k, v)])"
  by (auto simp: registry_ok_def map_of_eq_None_iff)

lemma steps_registry_ok:
  "steps env opts ucm db s t \<Longrightarrow> registry_ok (views s) \<Longrightarrow> registry_ok (views t)"
proof (induction rule: steps.induct)
  case (frame groupId nbCameras cameraId cameraIntrincicId nbImages frameId imagePath c s c' s' t)
  have "registry_ok (views s')"
    using process_frame_effect [OF frame.hyps(1)] frame.prems registry_ok_snoc by auto
  then show ?case using frame.IH by simp
qed simp_all

lemma views_with_id_one:
  "registry_ok vs \<Longrightarrow> u \<in> fst ` set vs \<Longrightarrow> length (views_with_id u vs) = 1"
proof (induction vs)
  case Nil
  then show ?case by simp
next
  case (Cons kv vs)
  have ok: "registry_ok vs" using Cons.prems(1) by (simp add: registry_ok_def)
  have none: "views_with_id u vs = []" if "u \<notin> fst ` set vs"
    using that ok by (auto simp: views_with_id_def registry_ok_def filter_empty_conv list_all_iff)
  show ?case
  proof (cases "fst kv = u")
    case True
    then have "u \<notin> fst ` set vs" using Cons.prems(1) by (auto simp: registry_ok_def)
    then show ?thesis using none True Cons.prems(1) by (simp add: views_with_id_def registry_ok_def)
  next
    case False
    then have "u \<in> fst ` set vs" using Cons.prems(2) by auto
    moreover have "v_viewId (snd kv) \<noteq> u" using False Cons.prems(1) by (auto simp: registry_ok_def)
    ultimately show ?thesis using Cons.IH [OF ok] by (simp add: views_with_id_def)
  qed
qed

lemma views_with_id_le_one:
  "registry_ok vs \<Longrightarrow> length (views_with_id u vs) \<le> 1"
proof (cases "u \<in> fst ` set vs")
  case True
  assume "registry_ok vs"
  then show ?thesis using views_with_id_one True by fastforce
next
  case False
  assume "registry_ok vs"
  then have "views_with_id u vs = []"
    using False by (auto simp: views_with_id_def registry_ok_def filter_empty_conv list_all_iff)
  then show ?thesis by simp
qed


section \<open>Pose identifiers of a rig\<close>

lemmas program_defs = main_def run_on_paths_def retrieve_image_paths_def retrieveResources_def
  listFiles_path_def directory_resources_def supportedExtensions_def finish_def report_def
  container_def viewsWithoutIntrinsic_def initial_state_def process_group_def process_camera_def
  process_frame_def add_view_def first_image_def no_metadata_serial_def find_sensor_width_def
  apply_user_metadata_def computeIntrinsic_def gopro_params_def choose_intrinsicType_def
  compute_pxFocalLength_def computeSensorWidth_def setSensorWidth_def setIntrinsicType_def
  setFocalLengthPixel_def setKMatrix_def ImageMetadata_new_def metadata_dimension_def stoi_def
  isdigit_def isspace_def checkIntrinsicStringValidity_def sensorInfo_eq_def tolower_def

lemma process_frame_rig:
  assumes "process_frame env opts ucm db groupId nbCameras cameraId iid nbImages frameId imagePath (c, s) = Inr (c', s')"
    and "1 < nbCameras"
  shows "poseId s' = poseId s \<and> rigId s' = rigId s
     \<and> (views s' = views s
        \<or> (\<exists>k v. views s' = views s @ [(k, v)]
              \<and> rig_view (poseId s) (rigId s) cameraId frameId imagePath v))"
  using process_frame_effect [OF assms(1)] assms(2) by (auto simp: rig_view_def)

lemma frame_loop_rig:
  assumes "1 < nbCameras"
  shows "frame_loop env opts ucm db groupId nbCameras cameraId iid nbImages f0 frames (c, s) = Inr (c', s')
    \<Longrightarrow> poseId s' = poseId s \<and> rigId s' = rigId s
      \<and> (\<exists>new. views s' = views s @ new
            \<and> (\<forall>kv\<in>set new. \<exists>i<length frames.
                  rig_view (poseId s) (rigId s) cameraId (f0 + i) (frames ! i) (snd kv)))"
proof (induction frames arbitrary: f0 c s)
  case Nil
  then show ?case by simp
next
  case (Cons imagePath rest)
  obtain c1 s1 where
    one: "process_frame env opts ucm db groupId nbCameras cameraId iid nbImages f0 imagePath (c, s) = Inr (c1, s1)"
    and more: "frame_loop env opts ucm db groupId nbCameras cameraId iid nbImages (Suc f0) rest (c1, s1) = Inr (c', s')"
    using Cons.prems by (simp split: sum.splits) (metis surj_pair)
  note pf = process_frame_rig [OF one assms]
  have keep: "poseId s1 = poseId s" "rigId s1 = rigId s"
    using pf by simp_all
  have first: "views s1 = views s \<or> (\<exists>k v. views s1 = views s @ [(k, v)]
              \<and> rig_view (poseId s) (rigId s) cameraId f0 imagePath v)"
    using pf by simp
  note ih = Cons.IH [OF more, unfolded keep]
  have fin: "poseId s' = poseId s" "rigId s' = rigId s"
    using ih by simp_all
  obtain new where vs: "views s' = views s1 @ new"
    and new: "\<forall>kv\<in>set new. \<exists>i<length rest.
                  rig_view (poseId s) (rigId s) cameraId (Suc f0 + i) (rest ! i) (snd kv)"
    using ih by blast
  have shift: "\<exists>i<length (imagePath # rest).
        rig_view (poseId s) (rigId s) cameraId (f0 + i) ((imagePath # rest) ! i) (snd kv)"
    if "kv \<in> set new" for kv
  proof -
    from new that have "\<exists>i<length rest.
        rig_view (poseId s) (rigId s) cameraId (Suc f0 + i) (rest ! i) (snd kv)"
      by (rule bspec)
    then obtain j where j: "j < length rest"
      "rig_view (poseId s) (rigId s) cameraId (Suc f0 + j) (rest ! j) (snd kv)"
      by (elim exE conjE)
    have "Suc j < length (imagePath # rest)
      \<and> rig_view (poseId s) (rigId s) cameraId (f0 + Suc j) ((imagePath # rest) ! Suc j) (snd kv)"
      using j by simp
    then show ?thesis by (rule exI [of _ "Suc j"])
  qed
  from first show ?case
  proof
    assume same: "views s1 = views s"
    have "views s' = views s @ new" using same vs by simp
    moreover have "\<forall>kv\<in>set new. \<exists>i<length (imagePath # rest).
        rig_view (poseId s) (rigId s) cameraId (f0 + i) ((imagePath # rest) ! i) (snd kv)"
      using shift by (rule ballI)
    ultimately have "\<exists>new. views s' = views s @ new \<and> (\<forall>kv\<in>set new. \<exists>i<length (imagePath # rest).
        rig_view (poseId s) (rigId s) cameraId (f0 + i) ((imagePath # rest) ! i) (snd kv))"
      by (intro exI [of _ new] conjI)
    then show ?thesis using fin by (intro conjI)
  next
    assume "\<exists>k v. views s1 = views s @ [(k, v)]
              \<and> rig_view (poseId s) (rigId s) cameraId f0 imagePath v"
    then obtain k v where kv: "views s1 = views s @ [(k, v)]"
      "rig_view (poseId s) (rigId s) cameraId f0 imagePath v"
      by blast
    have a: "views s' = views s @ ((k, v) # new)" using kv vs by simp
    have b: "\<forall>kv\<in>set ((k, v) # new). \<exists>i<length (imagePath # rest).
        rig_view (poseId s) (rigId s) cameraId (f0 + i) ((imagePath # rest) ! i) (snd kv)"
    proof
      fix x assume "x \<in> set ((k, v) # new)"
      then consider "x = (k, v)" | "x \<in> set new" by auto
      then show "\<exists>i<length (imagePath # rest).
        rig_view (poseId s) (rigId s) cameraId (f0 + i) ((imagePath # rest) ! i) (snd x)"
      proof cases
        case 1
        have "0 < length (imagePath # rest)
          \<and> rig_view (poseId s) (rigId s) cameraId (f0 + 0) ((imagePath # rest) ! 0) (snd x)"
          using kv 1 by simp
        then show ?thesis by (rule exI [of _ 0])
      next
        case 2
        then show ?thesis by (rule shift)
      qed
    qed
    have "\<exists>new. views s' = views s @ new \<and> (\<forall>kv\<in>set new. \<exists>i<length (imagePath # rest).
        rig_view (poseId s) (rigId s) cameraId (f0 + i) ((imagePath # rest) ! i) (snd kv))"
      using a b by (intro exI [of _ "(k, v) # new"] conjI)
    then show ?thesis using fin by (intro conjI)
  qed
qed

lemma process_camera_rig:
  assumes "process_camera env opts ucm db groupId nbCameras cameraId frames s = Inr s'"
    and "1 < nbCameras"
  shows "poseId s' = poseId s \<and> rigId s' = rigId s
      \<and> (\<exists>new. views s' = views s @ new
            \<and> (\<forall>kv\<in>set new. \<exists>i<length frames.
                  rig_view (poseId s) (rigId s) cameraId (0 + i) (frames ! i) (snd kv)))"
proof -
  let ?s2 = "s\<lparr> intrinsicId := intrinsicId s + 1,
                 rigs := AList.update (rigId s) nbCameras (rigs s) \<rparr>"
  let ?c0 = "\<lparr> isCameraFirstImage = True, cameraWidth = 0, cameraHeight = 0, cameraExifData = Map.empty \<rparr>"
  obtain c' where "frame_loop env opts ucm db groupId nbCameras cameraId (intrinsicId s)
      (length frames) 0 frames (?c0, ?s2) = Inr (c', s')"
    using assms by (auto simp: process_camera_def Let_def split: sum.splits)
  from frame_loop_rig [OF assms(2) this]
  have "poseId s' = poseId ?s2 \<and> rigId s' = rigId ?s2
      \<and> (\<exists>new. views s' = views ?s2 @ new
            \<and> (\<forall>kv\<in>set new. \<exists>i<length frames.
                  rig_view (poseId ?s2) (rigId ?s2) cameraId (0 + i) (frames ! i) (snd kv)))" .
  moreover have "poseId ?s2 = poseId s" "rigId ?s2 = rigId s" "views ?s2 = views s"
    by simp_all
  ultimately show ?thesis by (simp only:)
qed

lemma camera_loop_rig:
  assumes "1 < nbCameras"
  shows "camera_loop env opts ucm db groupId nbCameras cam0 cams s = Inr s'
    \<Longrightarrow> poseId s' = poseId s \<and> rigId s' = rigId s
      \<and> (\<exists>new. views s' = views s @ new
            \<and> (\<forall>kv\<in>set new. \<exists>j<length cams. \<exists>i<length (cams ! j).
                  rig_view (poseId s) (rigId s) (cam0 + j) i (cams ! j ! i) (snd kv)))"
proof (induction cams arbitrary: cam0 s)
  case Nil
  then show ?case by simp
next
  case (Cons frames rest)
  obtain s1 where
    one: "process_camera env opts ucm db groupId nbCameras cam0 frames s = Inr s1"
    and more: "camera_loop env opts ucm db groupId nbCameras (Suc cam0) rest s1 = Inr s'"
    using Cons.prems by (auto split: sum.splits)
  note pc = process_camera_rig [OF one assms]
  have keep: "poseId s1 = poseId s" "rigId s1 = rigId s"
    using pc by simp_all
  have "\<exists>new. views s1 = views s @ new
            \<and> (\<forall>kv\<in>set new. \<exists>i<length frames.
                  rig_view (poseId s) (rigId s) cam0 (0 + i) (frames ! i) (snd kv))"
    using pc by (elim conjE)
  then obtain new1 where v1: "views s1 = views s @ new1"
    and new1: "\<forall>kv\<in>set new1. \<exists>i<length frames.
                  rig_view (poseId s) (rigId s) cam0 (0 + i) (frames ! i) (snd kv)"
    by (elim exE conjE)
  note ih = Cons.IH [OF more, unfolded keep]
  have fin: "poseId s' = poseId s" "rigId s' = rigId s"
    using ih by simp_all
  have "\<exists>new. views s' = views s1 @ new
            \<and> (\<forall>kv\<in>set new. \<exists>j<length rest. \<exists>i<length (rest ! j).
                  rig_view (poseId s) (rigId s) (Suc cam0 + j) i (rest ! j ! i) (snd kv))"
    using ih by (elim conjE)
  then obtain new2 where v2: "views s' = views s1 @ new2"
    and new2: "\<forall>kv\<in>set new2. \<exists>j<length rest. \<exists>i<length (rest ! j).
                  rig_view (poseId s) (rigId s) (Suc cam0 + j) i (rest ! j ! i) (snd kv)"
    by (elim exE conjE)
  have a: "views s' = views s @ (new1 @ new2)" using v1 v2 by simp
  have b: "\<forall>kv\<in>set (new1 @ new2). \<exists>j<length (frames # rest). \<exists>i<length ((frames # rest) ! j).
      rig_view (poseId s) (rigId s) (cam0 + j) i ((frames # rest) ! j ! i) (snd kv)"
  proof
    fix x assume "x \<in> set (new1 @ new2)"
    then consider "x \<in> set new1" | "x \<in> set new2" by auto
    then show "\<exists>j<length (frames # rest). \<exists>i<length ((frames # rest) ! j).
      rig_view (poseId s) (rigId s) (cam0 + j) i ((frames # rest) ! j ! i) (snd x)"
    proof cases
      case 1
      with new1 have "\<exists>i<length frames. rig_view (poseId s) (rigId s) cam0 (0 + i) (frames ! i) (snd x)"
        by (rule bspec)
      then obtain i where i: "i < length frames"
        "rig_view (poseId s) (rigId s) cam0 (0 + i) (frames ! i) (snd x)"
        by (elim exE conjE)
      have "i < length ((frames # rest) ! 0)
        \<and> rig_view (poseId s) (rigId s) (cam0 + 0) i ((frames # rest) ! 0 ! i) (snd x)"
        using i by simp
      then have "\<exists>i<length ((frames # rest) ! 0).
          rig_view (poseId s) (rigId s) (cam0 + 0) i ((frames # rest) ! 0 ! i) (snd x)"
        by (rule exI [of _ i])
      moreover have "0 < length (frames # rest)" by simp
      ultimately have "0 < length (frames # rest) \<and> (\<exists>i<length ((frames # rest) ! 0).
          rig_view (poseId s) (rigId s) (cam0 + 0) i ((frames # rest) ! 0 ! i) (snd x))"
        by (intro conjI)
      then show ?thesis by (rule exI [of _ 0])
    next
      case 2
      with new2 have "\<exists>j<length rest. \<exists>i<length (rest ! j).
          rig_view (poseId s) (rigId s) (Suc cam0 + j) i (rest ! j ! i) (snd x)"
        by (rule bspec)
      then obtain j i where ji: "j < length rest" "i < length (rest ! j)"
        "rig_view (poseId s) (rigId s) (Suc cam0 + j) i (rest ! j ! i) (snd x)"
        by (elim exE conjE)
      have "i < length ((frames # rest) ! Suc j)
        \<and> rig_view (poseId s) (rigId s) (cam0 + Suc j) i ((frames # rest) ! Suc j ! i) (snd x)"
        using ji by simp
      then have "\<exists>i<length ((frames # rest) ! Suc j).
          rig_view (poseId s) (rigId s) (cam0 + Suc j) i ((frames # rest) ! Suc j ! i) (snd x)"
        by (rule exI [of _ i])
      moreover have "Suc j < length (frames # rest)" using ji by simp
      ultimately have "Suc j < length (frames # rest) \<and> (\<exists>i<length ((frames # rest) ! Suc j).
          rig_view (poseId s) (rigId s) (cam0 + Suc j) i ((frames # rest) ! Suc j ! i) (snd x))"
        by (intro conjI)
      then show ?thesis by (rule exI [of _ "Suc j"])
    qed
  qed
  have "\<exists>new. views s' = views s @ new
      \<and> (\<forall>kv\<in>set new. \<exists>j<length (frames # rest). \<exists>i<length ((frames # rest) ! j).
            rig_view (poseId s) (rigId s) (cam0 + j) i ((frames # rest) ! j ! i) (snd kv))"
    using a b by (intro exI [of _ "new1 @ new2"] conjI)
  then show ?case using fin by (intro conjI)
qed


text \<open>
  Claim C5. In a rig group whose cameras all have \<open>F\<close> frames, the pose counter stays
  where it is while the cameras are processed and is advanced by \<open>F\<close> once, after the
  last camera. Every view the group adds is the view of some camera \<open>cam\<close> and frame
  index \<open>f < F\<close> and has the pose "counter at the start of the group plus \<open>f\<close>": the
  same frame index gives the same pose in every camera, two frame indices give two poses.
  Every view added by a later group has a pose strictly above all poses of the rig.
\<close>

theorem rig_pose_ids:
  assumes rig: "1 < length groupImagePaths"
    and same: "\<forall>cameraImagePaths\<in>set groupImagePaths. length cameraImagePaths = F"
    and run: "process_group env opts ucm db groupId groupImagePaths s = Inr s'"
  shows "(\<exists>s1. camera_loop env opts ucm db groupId (length groupImagePaths) 0 groupImagePaths s = Inr s1
            \<and> poseId s1 = poseId s)
     \<and> poseId s' = poseId s + F
     \<and> (\<exists>new. views s' = views s @ new
           \<and> (\<forall>kv\<in>set new. \<exists>cam<length groupImagePaths. \<exists>f<F.
                 rig_view (poseId s) (rigId s) cam f (groupImagePaths ! cam ! f) (snd kv))
           \<and> (\<forall>kv\<in>set new. v_poseId (snd kv) < poseId s + F)
           \<and> (\<forall>t. image_listing env opts ucm db (Suc groupId) rest s' = Inr t \<longrightarrow>
                 (\<exists>later. views t = views s' @ later
                    \<and> (\<forall>kv\<in>set new. \<forall>kv'\<in>set later. v_poseId (snd kv) < v_poseId (snd kv')))))"
proof -
  obtain s1 where
    one: "camera_loop env opts ucm db groupId (length groupImagePaths) 0 groupImagePaths s = Inr s1"
    and fin: "s' = s1\<lparr> rigId := rigId s1 + 1, poseId := poseId s1 + length (hd groupImagePaths) \<rparr>"
    using run rig by (auto simp: process_group_def Let_def split: sum.splits)
  have F: "length (hd groupImagePaths) = F"
    using rig same by (cases groupImagePaths) auto
  note cl = camera_loop_rig [OF rig one]
  have keep: "poseId s1 = poseId s" "rigId s1 = rigId s"
    using cl by simp_all
  have "\<exists>new. views s1 = views s @ new
            \<and> (\<forall>kv\<in>set new. \<exists>j<length groupImagePaths. \<exists>i<length (groupImagePaths ! j).
                  rig_view (poseId s) (rigId s) (0 + j) i (groupImagePaths ! j ! i) (snd kv))"
    using cl by (elim conjE)
  then obtain new where v1: "views s1 = views s @ new"
    and new: "\<forall>kv\<in>set new. \<exists>j<length groupImagePaths. \<exists>i<length (groupImagePaths ! j).
                  rig_view (poseId s) (rigId s) (0 + j) i (groupImagePaths ! j ! i) (snd kv)"
    by (elim exE conjE)
  have new': "\<forall>kv\<in>set new. \<exists>cam<length groupImagePaths. \<exists>f<F.
                 rig_view (poseId s) (rigId s) cam f (groupImagePaths ! cam ! f) (snd kv)"
  proof
    fix kv assume "kv \<in> set new"
    with new have "\<exists>j<length groupImagePaths. \<exists>i<length (groupImagePaths ! j).
                  rig_view (poseId s) (rigId s) (0 + j) i (groupImagePaths ! j ! i) (snd kv)"
      by (rule bspec)
    then obtain j i where ji: "j < length groupImagePaths" "i < length (groupImagePaths ! j)"
      "rig_view (poseId s) (rigId s) (0 + j) i (groupImagePaths ! j ! i) (snd kv)"
      by (elim exE conjE)
    have len: "length (groupImagePaths ! j) = F" using same ji(1) by simp
    have "i < F \<and> rig_view (poseId s) (rigId s) j i (groupImagePaths ! j ! i) (snd kv)"
      using ji len by simp
    then have "\<exists>f<F. rig_view (poseId s) (rigId s) j f (groupImagePaths ! j ! f) (snd kv)"
      by (rule exI [of _ i])
    with ji(1) have "j < length groupImagePaths
        \<and> (\<exists>f<F. rig_view (poseId s) (rigId s) j f (groupImagePaths ! j ! f) (snd kv))"
      by (intro conjI)
    then show "\<exists>cam<length groupImagePaths. \<exists>f<F.
                 rig_view (poseId s) (rigId s) cam f (groupImagePaths ! cam ! f) (snd kv)"
      by (rule exI [of _ j])
  qed
  have below: "\<forall>kv\<in>set new. v_poseId (snd kv) < poseId s + F"
  proof
    fix kv assume "kv \<in> set new"
    with new' have "\<exists>cam<length groupImagePaths. \<exists>f<F.
                 rig_view (poseId s) (rigId s) cam f (groupImagePaths ! cam ! f) (snd kv)"
      by (rule bspec)
    then obtain cam f where "f < F" "rig_view (poseId s) (rigId s) cam f (groupImagePaths ! cam ! f) (snd kv)"
      by (elim exE conjE)
    then show "v_poseId (snd kv) < poseId s + F" by (simp add: rig_view_def)
  qed
  have pose: "poseId s' = poseId s + F" using fin keep F by simp
  have vs: "views s' = views s @ new" using fin v1 by simp
  have later: "\<forall>t. image_listing env opts ucm db (Suc groupId) rest s' = Inr t \<longrightarrow>
                 (\<exists>later. views t = views s' @ later
                    \<and> (\<forall>kv\<in>set new. \<forall>kv'\<in>set later. v_poseId (snd kv) < v_poseId (snd kv')))"
  proof (intro allI impI)
    fix t assume t: "image_listing env opts ucm db (Suc groupId) rest s' = Inr t"
    note g = steps_views_grow [OF image_listing_steps [OF t]]
    have "\<exists>l. views t = views s' @ l \<and> (\<forall>kv\<in>set l. poseId s' \<le> v_poseId (snd kv))"
      using g by (elim conjE)
    then obtain l where l: "views t = views s' @ l" "\<forall>kv\<in>set l. poseId s' \<le> v_poseId (snd kv)"
      by (elim exE conjE)
    have "\<forall>kv\<in>set new. \<forall>kv'\<in>set l. v_poseId (snd kv) < v_poseId (snd kv')"
    proof (intro ballI)
      fix kv kv' assume a: "kv \<in> set new" and b: "kv' \<in> set l"
      have "v_poseId (snd kv) < poseId s + F" using below a by (rule bspec)
      moreover have "poseId s' \<le> v_poseId (snd kv')" using l(2) b by (rule bspec)
      ultimately show "v_poseId (snd kv) < v_poseId (snd kv')" using pose by simp
    qed
    with l(1) show "\<exists>later. views t = views s' @ later
                    \<and> (\<forall>kv\<in>set new. \<forall>kv'\<in>set later. v_poseId (snd kv) < v_poseId (snd kv'))"
      by (intro exI [of _ l] conjI)
  qed
  have first: "\<exists>s1. camera_loop env opts ucm db groupId (length groupImagePaths) 0 groupImagePaths s = Inr s1
            \<and> poseId s1 = poseId s"
    using one keep(1) by (intro exI [of _ s1] conjI)
  have third: "\<exists>new. views s' = views s @ new
           \<and> (\<forall>kv\<in>set new. \<exists>cam<length groupImagePaths. \<exists>f<F.
                 rig_view (poseId s) (rigId s) cam f (groupImagePaths ! cam ! f) (snd kv))
           \<and> (\<forall>kv\<in>set new. v_poseId (snd kv) < poseId s + F)
           \<and> (\<forall>t. image_listing env opts ucm db (Suc groupId) rest s' = Inr t \<longrightarrow>
                 (\<exists>later. views t = views s' @ later
                    \<and> (\<forall>kv\<in>set new. \<forall>kv'\<in>set later. v_poseId (snd kv) < v_poseId (snd kv'))))"
    using vs new' below later by (intro exI [of _ new] conjI)
  show ?thesis using first pose third by (intro conjI)
qed

theorem rig_pose_ids_witness:
  "1 < length [[''r/a0.jpg'', ''r/a1.jpg''], [''r/b0.jpg'', ''r/b1.jpg'']]
   \<and> map length [[''r/a0.jpg'', ''r/a1.jpg''], [''r/b0.jpg'', ''r/b1.jpg'']] = [2, 2]
   \<and> poses (process_group bench bench_options PINHOLE_CAMERA_START [] 0
               [[''r/a0.jpg'', ''r/a1.jpg''], [''r/b0.jpg'', ''r/b1.jpg'']] initial_state) = Some [0, 1, 0, 1]
   \<and> pose_counter (process_group bench bench_options PINHOLE_CAMERA_START [] 0
               [[''r/a0.jpg'', ''r/a1.jpg''], [''r/b0.jpg'', ''r/b1.jpg'']] initial_state) = Some 2"
proof -
  let ?g = "[[''r/a0.jpg'', ''r/a1.jpg''], [''r/b0.jpg'', ''r/b1.jpg'']]"
  let ?r = "process_group bench bench_options PINHOLE_CAMERA_START [] 0 ?g initial_state"
  have len: "1 < length ?g" by simp
  have same: "\<forall>cameraImagePaths\<in>set ?g. length cameraImagePaths = 2" by simp
  have ev: "poses ?r = Some [0, 1, 0, 1]"
    by (simp add: poses_def program_defs bench_defs Let_def cong: let_weak_cong)
  obtain s' where run: "?r = Inr s'"
    using ev by (cases ?r) (simp_all add: poses_def)
  have "poseId s' = poseId initial_state + 2"
    using rig_pose_ids [OF len same run, THEN conjunct2, THEN conjunct1] .
  then have "poseId s' = 2" by (simp add: initial_state_def)
  then have "pose_counter ?r = Some 2" by (simp add: run pose_counter_def)
  moreover have "map length ?g = [2, 2]" by simp
  ultimately show ?thesis using len ev by (intro conjI)
qed


section \<open>Duplicate views\<close>

text \<open>
  Claim C6. A frame whose identifier is already in the registry is passed over: the state
  is unchanged but for the warning, and the step does not fail. Once a frame with
  identifier \<open>u\<close> has got through the identifier check (added or passed over), every
  later state of the loops holds exactly one view with identifier \<open>u\<close>; the registry at
  the end of the loops holds at most one view for any identifier.
\<close>

theorem duplicate_view_skipped:
  "(map_of (views s) (computeUID env (exif_open env ap) imagePath) \<noteq> None \<longrightarrow>
      add_view env isRig cameraId iid frameId imagePath ap w h c s =
        s\<lparr> log := log s @ [WarningDuplicate ap] \<rparr>)
   \<and> (registry_ok (views s)
        \<and> steps env opts ucm db (add_view env isRig cameraId iid frameId imagePath ap w h c s) t \<longrightarrow>
        length (views_with_id (computeUID env (exif_open env ap) imagePath) (views t)) = 1)
   \<and> (image_listing env opts ucm db groupId groups initial_state = Inr t \<longrightarrow>
        registry_ok (views t) \<and> (\<forall>u. length (views_with_id u (views t)) \<le> 1))"
proof -
  let ?u = "computeUID env (exif_open env ap) imagePath"
  let ?s1 = "add_view env isRig cameraId iid frameId imagePath ap w h c s"
  note cases = add_view_cases [of env isRig cameraId iid frameId imagePath ap w h c s]
  have a: "map_of (views s) ?u \<noteq> None \<longrightarrow> ?s1 = s\<lparr> log := log s @ [WarningDuplicate ap] \<rparr>"
    by (simp add: add_view_def Let_def)
  have b: "length (views_with_id ?u (views t)) = 1"
    if ok: "registry_ok (views s)" and st: "steps env opts ucm db ?s1 t"
  proof -
    have ok1: "registry_ok (views ?s1)" and in1: "?u \<in> fst ` set (views ?s1)"
    proof -
      from cases show "registry_ok (views ?s1)"
      proof
        assume "?s1 = s\<lparr> log := log s @ [WarningDuplicate ap] \<rparr> \<and> map_of (views s) ?u \<noteq> None"
        then show ?thesis using ok by simp
      next
        assume "\<exists>v. ?s1 = s\<lparr> views := views s @ [(?u, v)],
             poseId := (if isRig then poseId s else poseId s + 1),
             nbCurrImages := nbCurrImages s + 1 \<rparr>
          \<and> map_of (views s) ?u = None \<and> v_viewId v = ?u
          \<and> v_poseId v = (if isRig then poseId s + frameId else poseId s)
          \<and> v_rigAndSubPoseId v = (if isRig then Some (rigId s, cameraId) else None)
          \<and> v_imagePath v = imagePath \<and> v_intrinsicId v = iid"
        then obtain v where v: "?s1 = s\<lparr> views := views s @ [(?u, v)],
             poseId := (if isRig then poseId s else poseId s + 1),
             nbCurrImages := nbCurrImages s + 1 \<rparr>"
          "map_of (views s) ?u = None" "v_viewId v = ?u"
          by (elim exE conjE)
        have "views ?s1 = views s @ [(?u, v)]" by (simp add: v(1))
        then show ?thesis using registry_ok_snoc [OF ok v(2) v(3)] by simp
      qed
      from cases show "?u \<in> fst ` set (views ?s1)"
      proof
        assume d: "?s1 = s\<lparr> log := log s @ [WarningDuplicate ap] \<rparr> \<and> map_of (views s) ?u \<noteq> None"
        then have "?u \<in> fst ` set (views s)" by (simp add: map_of_eq_None_iff)
        moreover have "views ?s1 = views s" using d by simp
        ultimately show ?thesis by simp
      next
        assume "\<exists>v. ?s1 = s\<lparr> views := views s @ [(?u, v)],
             poseId := (if isRig then poseId s else poseId s + 1),
             nbCurrImages := nbCurrImages s + 1 \<rparr>
          \<and> map_of (views s) ?u = None \<and> v_viewId v = ?u
          \<and> v_poseId v = (if isRig then poseId s + frameId else poseId s)
          \<and> v_rigAndSubPoseId v = (if isRig then Some (rigId s, cameraId) else None)
          \<and> v_imagePath v = imagePath \<and> v_intrinsicId v = iid"
        then obtain v where v: "?s1 = s\<lparr> views := views s @ [(?u, v)],
             poseId := (if isRig then poseId s else poseId s + 1),
             nbCurrImages := nbCurrImages s + 1 \<rparr>"
          by (elim exE conjE)
        have "views ?s1 = views s @ [(?u, v)]" by (simp add: v)
        then show ?thesis by simp
      qed
    qed
    note g = steps_views_grow [OF st]
    have "\<exists>new. views t = views ?s1 @ new \<and> (\<forall>kv\<in>set new. poseId ?s1 \<le> v_poseId (snd kv))"
      using g by (elim conjE)
    then obtain new where "views t = views ?s1 @ new" by (elim exE conjE)
    then have "?u \<in> fst ` set (views t)" using in1 by auto
    then show ?thesis using views_with_id_one [OF steps_registry_ok [OF st ok1]] by simp
  qed
  have c: "registry_ok (views t) \<and> (\<forall>u. length (views_with_id u (views t)) \<le> 1)"
    if run: "image_listing env opts ucm db groupId groups initial_state = Inr t"
  proof -
    have "registry_ok (views initial_state)" by (simp add: registry_ok_def initial_state_def)
    then have ok: "registry_ok (views t)"
      using steps_registry_ok [OF image_listing_steps [OF run]] by simp
    then show ?thesis using views_with_id_le_one by simp
  qed
  have b': "registry_ok (views s) \<and> steps env opts ucm db ?s1 t \<longrightarrow>
      length (views_with_id ?u (views t)) = 1"
    using b by (intro impI) (elim conjE)
  have c': "image_listing env opts ucm db groupId groups initial_state = Inr t \<longrightarrow>
        registry_ok (views t) \<and> (\<forall>u. length (views_with_id u (views t)) \<le> 1)"
    using c by (intro impI)
  show ?thesis using a b' c' by (intro conjI)
qed

theorem duplicate_view_skipped_witness:
  "registry_ok (views initial_state)
   \<and> map_of (views bench_first) (computeUID bench (exif_open bench ''rot.jpg'') ''rot.jpg'') \<noteq> None
   \<and> add_view bench False 0 0 1 ''rot.jpg'' ''rot.jpg'' 300 200 bench_camera bench_first =
       bench_first\<lparr> log := log bench_first @ [WarningDuplicate ''rot.jpg''] \<rparr>
   \<and> length (views_with_id (computeUID bench (exif_open bench ''rot.jpg'') ''rot.jpg'') (views bench_first)) = 1
   \<and> main bench (bench_options\<lparr> jsonFile := ''twice.json'' \<rparr>) = (EXIT_SUCCESS, [WarningDuplicate ''rot.jpg''])"
proof -
  have ok: "registry_ok (views initial_state)"
    by (simp add: registry_ok_def initial_state_def)
  have there: "map_of (views bench_first) (computeUID bench (exif_open bench ''rot.jpg'') ''rot.jpg'') \<noteq> None"
    by (simp add: bench_first_def bench_camera_def add_view_def initial_state_def bench_defs Let_def
        cong: let_weak_cong)
  have skip: "add_view bench False 0 0 1 ''rot.jpg'' ''rot.jpg'' 300 200 bench_camera bench_first =
       bench_first\<lparr> log := log bench_first @ [WarningDuplicate ''rot.jpg''] \<rparr>"
    using duplicate_view_skipped [of bench_first bench "''rot.jpg''" "''rot.jpg''" False 0 0 1 300 200
        bench_camera, THEN conjunct1] there
    by simp
  have st: "steps bench bench_options PINHOLE_CAMERA_START []
      (add_view bench False 0 0 0 ''rot.jpg'' ''rot.jpg'' 300 200 bench_camera initial_state) bench_first"
    unfolding bench_first_def by (rule steps.stay)
  have one: "length (views_with_id (computeUID bench (exif_open bench ''rot.jpg'') ''rot.jpg'') (views bench_first)) = 1"
    using duplicate_view_skipped [of initial_state bench "''rot.jpg''" "''rot.jpg''" False 0 0 0 300 200
        bench_camera bench_options PINHOLE_CAMERA_START "[]" bench_first, THEN conjunct2, THEN conjunct1]
      ok st
    by simp
  have run: "main bench (bench_options\<lparr> jsonFile := ''twice.json'' \<rparr>) = (EXIT_SUCCESS, [WarningDuplicate ''rot.jpg''])"
    by (simp add: program_defs bench_defs Let_def cong: let_weak_cong)
  show ?thesis using ok there skip one run by (intro conjI)
qed


section \<open>Two runs of the whole program\<close>

text \<open>
  Claim C2 says that a rig camera whose later frame differs from its first frame in width
  or in height makes the run fail. The test of line 968 asks for both to differ. On the
  rig of the bench the second frame of the first camera is 100 by 200 after a first frame
  of 100 by 100, and the run ends with success.
\<close>

theorem rig_one_dimension_differs_accepted:
  "ReadImageHeader bench ''r/a0.jpg'' = Some (100, 100)
   \<and> ReadImageHeader bench ''r/a1.jpg'' = Some (100, 200)
   \<and> load_json bench ''rig.json'' =
       Object (Some (JArray [JArray [JArray [JString ''r/a0.jpg'', JString ''r/a1.jpg''],
                                     JArray [JString ''r/b0.jpg'', JString ''r/b1.jpg'']]]))
   \<and> main bench (bench_options\<lparr> jsonFile := ''rig.json'' \<rparr>) =
       (EXIT_SUCCESS, [WarningNoMetadata [''r/a0.jpg'', ''r/b0.jpg'']])"
  by (simp add: program_defs bench_defs Let_def cong: let_weak_cong)

text \<open>
  Claim C4 says that the final report names each (brand, model) pair once. The report is
  cut down with \<^verbatim>\<open>std::unique\<close> on the unsorted list, which drops a pair only next to
  its equal. Three single images with the pairs Acme X1, Bolt Y2, Acme X1, none in the
  database: the run fails, as the claim says, and its report names Acme X1 twice.
\<close>

theorem unknown_sensor_reported_twice:
  "main bench (bench_options\<lparr> jsonFile := ''sensors.json'' \<rparr>) =
     (EXIT_FAILURE,
      [ErrorSensorWidthUnknown
         [\<lparr> filePath = ''u1.jpg'', brand = ''Acme'', model = ''X1'' \<rparr>,
          \<lparr> filePath = ''u2.jpg'', brand = ''Bolt'', model = ''Y2'' \<rparr>,
          \<lparr> filePath = ''u3.jpg'', brand = ''Acme'', model = ''X1'' \<rparr>]])"
  by (simp add: program_defs bench_defs Let_def cong: let_weak_cong)


section \<open>The list of unknown sensors\<close>

lemma find_sensor_width_flag:
  "fst (find_sensor_width env opts db md) =
     (userSensorWidth opts = - 1
      \<and> getInfo env (m_cameraBrand md) (m_cameraModel md) db = None
      \<and> m_haveValidMetadata md \<and> m_pxFocalLength md = - 1)"
  by (auto simp: find_sensor_width_def computeSensorWidth_def setSensorWidth_def split: option.splits)

lemma apply_user_metadata_keeps:
  "m_haveValidMetadata (apply_user_metadata env opts ucm md) = m_haveValidMetadata md"
  "m_cameraBrand (apply_user_metadata env opts ucm md) = m_cameraBrand md"
  "m_cameraModel (apply_user_metadata env opts ucm md) = m_cameraModel md"
  by (auto simp: apply_user_metadata_def setIntrinsicType_def setKMatrix_def setFocalLengthPixel_def
      Let_def split: prod.splits bool.splits)

lemma apply_user_metadata_focal:
  "userFocalLengthPixel opts \<noteq> - 1 \<Longrightarrow>
     m_pxFocalLength (apply_user_metadata env opts ucm md) = userFocalLengthPixel opts"
  by (simp add: apply_user_metadata_def setFocalLengthPixel_def Let_def)

lemma ImageMetadata_new_valid:
  assumes "ImageMetadata_new env ap w h = Some md"
  shows "m_haveValidMetadata md =
      (doesHaveExifInfo (exif_open env ap) \<and> getBrand (exif_open env ap) \<noteq> []
        \<and> getModel (exif_open env ap) \<noteq> [])"
    and "m_haveValidMetadata md \<longrightarrow>
      m_cameraBrand md = getBrand (exif_open env ap) \<and> m_cameraModel md = getModel (exif_open env ap)"
  using assms by (auto simp: ImageMetadata_new_def Let_def split: option.splits)

text \<open>
  The list of unknown sensors after the first image of a camera: one entry more exactly
  when the block of lines 917 to 929 says so.
\<close>

lemma first_image_unknown:
  assumes "first_image env opts ucm db groupId cameraId isRig isGroup iid imagePath ap folder w h s = Inr (c', s')"
  shows "\<exists>md0. ImageMetadata_new env ap w h = Some md0
     \<and> unknownSensorImages s' =
         (if fst (find_sensor_width env opts db (apply_user_metadata env opts ucm md0))
          then unknownSensorImages s @
                 [\<lparr> filePath = imagePath, brand = m_cameraBrand md0, model = m_cameraModel md0 \<rparr>]
          else unknownSensorImages s)"
proof -
  obtain md0 where md0: "ImageMetadata_new env ap w h = Some md0"
    using assms by (cases "ImageMetadata_new env ap w h") (simp_all add: first_image_def)
  obtain unknown md1 where fs:
    "find_sensor_width env opts db (apply_user_metadata env opts ucm md0) = (unknown, md1)"
    by (cases "find_sensor_width env opts db (apply_user_metadata env opts ucm md0)")
  have bm: "m_cameraBrand md1 = m_cameraBrand md0" "m_cameraModel md1 = m_cameraModel md0"
    using fs apply_user_metadata_keeps [of env opts ucm md0]
    by (auto simp: find_sensor_width_def computeSensorWidth_def setSensorWidth_def
        split: if_splits option.splits)
  have "unknownSensorImages s' =
         (if unknown
          then unknownSensorImages s @
                 [\<lparr> filePath = imagePath, brand = m_cameraBrand md1, model = m_cameraModel md1 \<rparr>]
          else unknownSensorImages s)"
    using assms md0 fs
    by (auto simp: first_image_def Let_def split: option.splits prod.splits if_splits)
  then show ?thesis using md0 fs bm by simp
qed

lemma add_view_unknown:
  "unknownSensorImages (add_view env isRig cameraId iid frameId imagePath ap w h c s) = unknownSensorImages s"
  by (simp add: add_view_def Let_def)

lemma process_frame_unknown:
  assumes run: "process_frame env opts ucm db groupId nbCameras cameraId iid nbImages frameId imagePath (c, s) = Inr (c', s')"
    and changed: "unknownSensorImages s' \<noteq> unknownSensorImages s"
  shows "isCameraFirstImage c
     \<and> (\<exists>w h md0.
          ImageMetadata_new env
            (if imageDirectory opts = [] then imagePath
             else create_filespec env (imageDirectory opts) imagePath) w h = Some md0
          \<and> fst (find_sensor_width env opts db (apply_user_metadata env opts ucm md0))
          \<and> unknownSensorImages s' = unknownSensorImages s @
                [\<lparr> filePath = imagePath, brand = m_cameraBrand md0, model = m_cameraModel md0 \<rparr>])"
proof -
  let ?abs = "if imageDirectory opts = [] then imagePath else create_filespec env (imageDirectory opts) imagePath"
  have known: "\<not> GetFormat_Unknown env ?abs"
    using run changed by (auto simp: process_frame_def Let_def)
  obtain w h where hd: "ReadImageHeader env ?abs = Some (w, h)"
    using run changed known by (cases "ReadImageHeader env ?abs") (auto simp: process_frame_def Let_def)
  have pos: "\<not> (w \<le> 0 \<or> h \<le> 0)"
    using run changed known hd by (auto simp: process_frame_def Let_def)
  obtain c1 s1 where mid:
    "(if isCameraFirstImage c
      then first_image env opts ucm db groupId cameraId (1 < nbCameras) (1 < nbImages) iid
             imagePath ?abs (folder_part env ?abs) w h s
      else if w \<noteq> cameraWidth c \<and> h \<noteq> cameraHeight c
      then Inl (EXIT_FAILURE, log s @ [ErrorRigDimensions])
      else Inr (c, s)) = Inr (c1, s1)"
    and fin: "s' = add_view env (1 < nbCameras) cameraId iid frameId imagePath ?abs w h c1 s1"
    using run known hd pos
    by (auto simp: process_frame_def Let_def split: sum.splits if_splits)
  have u: "unknownSensorImages s' = unknownSensorImages s1"
    unfolding fin by (rule add_view_unknown)
  have first: "isCameraFirstImage c"
    using mid u changed by (auto split: if_splits)
  then have fi: "first_image env opts ucm db groupId cameraId (1 < nbCameras) (1 < nbImages) iid
             imagePath ?abs (folder_part env ?abs) w h s = Inr (c1, s1)"
    using mid by simp
  from first_image_unknown [OF fi]
  obtain md0 where md0: "ImageMetadata_new env ?abs w h = Some md0"
    and us: "unknownSensorImages s1 =
         (if fst (find_sensor_width env opts db (apply_user_metadata env opts ucm md0))
          then unknownSensorImages s @
                 [\<lparr> filePath = imagePath, brand = m_cameraBrand md0, model = m_cameraModel md0 \<rparr>]
          else unknownSensorImages s)"
    by (elim exE conjE)
  have flag: "fst (find_sensor_width env opts db (apply_user_metadata env opts ucm md0))"
    using us u changed by (auto split: if_splits)
  have "ImageMetadata_new env ?abs w h = Some md0
          \<and> fst (find_sensor_width env opts db (apply_user_metadata env opts ucm md0))
          \<and> unknownSensorImages s' = unknownSensorImages s @
                [\<lparr> filePath = imagePath, brand = m_cameraBrand md0, model = m_cameraModel md0 \<rparr>]"
    using md0 flag us u by simp
  then have "\<exists>w h md0. ImageMetadata_new env ?abs w h = Some md0
          \<and> fst (find_sensor_width env opts db (apply_user_metadata env opts ucm md0))
          \<and> unknownSensorImages s' = unknownSensorImages s @
                [\<lparr> filePath = imagePath, brand = m_cameraBrand md0, model = m_cameraModel md0 \<rparr>]"
    by (intro exI)
  then show ?thesis using first by (intro conjI)
qed

lemma steps_unknown_unchanged:
  assumes "steps env opts ucm db s t"
    and "userSensorWidth opts \<noteq> - 1 \<or> userFocalLengthPixel opts \<noteq> - 1"
  shows "unknownSensorImages t = unknownSensorImages s"
  using assms
proof (induction rule: steps.induct)
  case (frame groupId nbCameras cameraId cameraIntrincicId nbImages frameId imagePath c s c' s' t)
  have "unknownSensorImages s' = unknownSensorImages s"
  proof (rule ccontr)
    assume ch: "unknownSensorImages s' \<noteq> unknownSensorImages s"
    from process_frame_unknown [OF frame.hyps(1) ch]
    obtain w h md0 where "fst (find_sensor_width env opts db (apply_user_metadata env opts ucm md0))"
      by (elim exE conjE)
    then have "userSensorWidth opts = - 1"
      "m_pxFocalLength (apply_user_metadata env opts ucm md0) = - 1"
      by (simp_all add: find_sensor_width_flag)
    then show False
      using frame.prems apply_user_metadata_focal [of opts env ucm md0] by auto
  qed
  then show ?case using frame.IH frame.prems by simp
qed simp_all



text \<open>
  Claim C10, as amended. A frame adds an image to the list of unknown sensors only when it
  is the first readable frame of its camera, no sensor width is given by the user, the
  database has no entry for the brand and model, the EXIF data is there with brand and
  model, and the focal length in pixels is still \<open>-1\<close> after the user's values are laid
  on. So a run with a sensor width other than \<open>-1\<close>, with a focal length in pixels other
  than \<open>-1\<close>, or with a K-matrix whose focal entry is not \<open>-1\<close> (the value that
  \<^verbatim>\<open>main\<close> copies into the focal length option) leaves the list empty, and an image
  without EXIF brand or model is never added.
\<close>

theorem unknown_sensor_only_when:
  "(process_frame env opts ucm db groupId nbCameras cameraId iid nbImages frameId imagePath (c, s) = Inr (c', s')
      \<and> unknownSensorImages s' \<noteq> unknownSensorImages s \<longrightarrow>
      isCameraFirstImage c \<and> userSensorWidth opts = - 1
      \<and> (\<exists>w h md0 reader.
            reader = exif_open env (if imageDirectory opts = [] then imagePath
                                    else create_filespec env (imageDirectory opts) imagePath)
          \<and> ImageMetadata_new env (if imageDirectory opts = [] then imagePath
                                    else create_filespec env (imageDirectory opts) imagePath) w h = Some md0
          \<and> getInfo env (getBrand reader) (getModel reader) db = None
          \<and> doesHaveExifInfo reader \<and> getBrand reader \<noteq> [] \<and> getModel reader \<noteq> []
          \<and> m_pxFocalLength (apply_user_metadata env opts ucm md0) = - 1
          \<and> unknownSensorImages s' = unknownSensorImages s @
                [\<lparr> filePath = imagePath, brand = getBrand reader, model = getModel reader \<rparr>]))
   \<and> (steps env opts ucm db s t
        \<and> (userSensorWidth opts \<noteq> - 1 \<or> userFocalLengthPixel opts \<noteq> - 1) \<longrightarrow>
        unknownSensorImages t = unknownSensorImages s)
   \<and> (userKMatrix opts \<noteq> []
        \<and> checkIntrinsicStringValidity env (userKMatrix opts) (userFocalLengthPixel opts, - 1, - 1)
            = (True, focal, x, y)
        \<and> focal \<noteq> - 1
        \<and> image_listing env (opts\<lparr> userFocalLengthPixel := focal \<rparr>) ucm db 0 groups initial_state = Inr t \<longrightarrow>
        unknownSensorImages t = [])"
proof -
  let ?abs = "if imageDirectory opts = [] then imagePath else create_filespec env (imageDirectory opts) imagePath"
  have a: "isCameraFirstImage c \<and> userSensorWidth opts = - 1
      \<and> (\<exists>w h md0 reader.
            reader = exif_open env ?abs
          \<and> ImageMetadata_new env ?abs w h = Some md0
          \<and> getInfo env (getBrand reader) (getModel reader) db = None
          \<and> doesHaveExifInfo reader \<and> getBrand reader \<noteq> [] \<and> getModel reader \<noteq> []
          \<and> m_pxFocalLength (apply_user_metadata env opts ucm md0) = - 1
          \<and> unknownSensorImages s' = unknownSensorImages s @
                [\<lparr> filePath = imagePath, brand = getBrand reader, model = getModel reader \<rparr>])"
    if run: "process_frame env opts ucm db groupId nbCameras cameraId iid nbImages frameId imagePath (c, s) = Inr (c', s')"
      and ch: "unknownSensorImages s' \<noteq> unknownSensorImages s"
  proof -
    note pf = process_frame_unknown [OF run ch]
    have first: "isCameraFirstImage c" using pf by (elim conjE)
    have "\<exists>w h md0. ImageMetadata_new env ?abs w h = Some md0
          \<and> fst (find_sensor_width env opts db (apply_user_metadata env opts ucm md0))
          \<and> unknownSensorImages s' = unknownSensorImages s @
                [\<lparr> filePath = imagePath, brand = m_cameraBrand md0, model = m_cameraModel md0 \<rparr>]"
      using pf by (elim conjE)
    then obtain w h md0 where md0: "ImageMetadata_new env ?abs w h = Some md0"
      and flag: "fst (find_sensor_width env opts db (apply_user_metadata env opts ucm md0))"
      and us: "unknownSensorImages s' = unknownSensorImages s @
                [\<lparr> filePath = imagePath, brand = m_cameraBrand md0, model = m_cameraModel md0 \<rparr>]"
      by (elim exE conjE)
    have f: "userSensorWidth opts = - 1"
      "getInfo env (m_cameraBrand md0) (m_cameraModel md0) db = None"
      "m_haveValidMetadata md0"
      "m_pxFocalLength (apply_user_metadata env opts ucm md0) = - 1"
      using flag by (simp_all add: find_sensor_width_flag apply_user_metadata_keeps)
    have v: "doesHaveExifInfo (exif_open env ?abs)" "getBrand (exif_open env ?abs) \<noteq> []"
      "getModel (exif_open env ?abs) \<noteq> []"
      "m_cameraBrand md0 = getBrand (exif_open env ?abs)"
      "m_cameraModel md0 = getModel (exif_open env ?abs)"
      using ImageMetadata_new_valid [OF md0] f(3) by simp_all
    have "exif_open env ?abs = exif_open env ?abs
          \<and> ImageMetadata_new env ?abs w h = Some md0
          \<and> getInfo env (getBrand (exif_open env ?abs)) (getModel (exif_open env ?abs)) db = None
          \<and> doesHaveExifInfo (exif_open env ?abs) \<and> getBrand (exif_open env ?abs) \<noteq> []
          \<and> getModel (exif_open env ?abs) \<noteq> []
          \<and> m_pxFocalLength (apply_user_metadata env opts ucm md0) = - 1
          \<and> unknownSensorImages s' = unknownSensorImages s @
                [\<lparr> filePath = imagePath, brand = getBrand (exif_open env ?abs),
                   model = getModel (exif_open env ?abs) \<rparr>]"
      using md0 f v us by simp
    then have "\<exists>w h md0 reader.
            reader = exif_open env ?abs
          \<and> ImageMetadata_new env ?abs w h = Some md0
          \<and> getInfo env (getBrand reader) (getModel reader) db = None
          \<and> doesHaveExifInfo reader \<and> getBrand reader \<noteq> [] \<and> getModel reader \<noteq> []
          \<and> m_pxFocalLength (apply_user_metadata env opts ucm md0) = - 1
          \<and> unknownSensorImages s' = unknownSensorImages s @
                [\<lparr> filePath = imagePath, brand = getBrand reader, model = getModel reader \<rparr>]"
      by (intro exI)
    then show ?thesis using first f(1) by (intro conjI)
  qed
  have b: "unknownSensorImages t = unknownSensorImages s"
    if "steps env opts ucm db s t" "userSensorWidth opts \<noteq> - 1 \<or> userFocalLengthPixel opts \<noteq> - 1"
    using that by (rule steps_unknown_unchanged)
  have k: "unknownSensorImages t = []"
    if "focal \<noteq> - 1"
      "image_listing env (opts\<lparr> userFocalLengthPixel := focal \<rparr>) ucm db 0 groups initial_state = Inr t"
  proof -
    have "userSensorWidth (opts\<lparr> userFocalLengthPixel := focal \<rparr>) \<noteq> - 1
        \<or> userFocalLengthPixel (opts\<lparr> userFocalLengthPixel := focal \<rparr>) \<noteq> - 1"
      using that(1) by simp
    from steps_unknown_unchanged [OF image_listing_steps [OF that(2)] this]
    show ?thesis by (simp add: initial_state_def)
  qed
  have a': "process_frame env opts ucm db groupId nbCameras cameraId iid nbImages frameId imagePath (c, s) = Inr (c', s')
      \<and> unknownSensorImages s' \<noteq> unknownSensorImages s \<longrightarrow>
      isCameraFirstImage c \<and> userSensorWidth opts = - 1
      \<and> (\<exists>w h md0 reader.
            reader = exif_open env ?abs
          \<and> ImageMetadata_new env ?abs w h = Some md0
          \<and> getInfo env (getBrand reader) (getModel reader) db = None
          \<and> doesHaveExifInfo reader \<and> getBrand reader \<noteq> [] \<and> getModel reader \<noteq> []
          \<and> m_pxFocalLength (apply_user_metadata env opts ucm md0) = - 1
          \<and> unknownSensorImages s' = unknownSensorImages s @
                [\<lparr> filePath = imagePath, brand = getBrand reader, model = getModel reader \<rparr>])"
    using a by (intro impI) (elim conjE)
  have b': "steps env opts ucm db s t
        \<and> (userSensorWidth opts \<noteq> - 1 \<or> userFocalLengthPixel opts \<noteq> - 1) \<longrightarrow>
        unknownSensorImages t = unknownSensorImages s"
    using b by (intro impI) (elim conjE)
  have k': "userKMatrix opts \<noteq> []
        \<and> checkIntrinsicStringValidity env (userKMatrix opts) (userFocalLengthPixel opts, - 1, - 1)
            = (True, focal, x, y)
        \<and> focal \<noteq> - 1
        \<and> image_listing env (opts\<lparr> userFocalLengthPixel := focal \<rparr>) ucm db 0 groups initial_state = Inr t \<longrightarrow>
        unknownSensorImages t = []"
    using k by (intro impI) (elim conjE)
  show ?thesis using a' b' k' by (intro conjI)
qed

theorem unknown_sensor_only_when_witness:
  "frame_unknown (process_frame bench bench_options PINHOLE_CAMERA_START [] 0 1 0 0 1 0 ''u1.jpg''
       (bench_fresh, initial_state)) =
     Some [\<lparr> filePath = ''u1.jpg'', brand = ''Acme'', model = ''X1'' \<rparr>]
   \<and> getInfo bench ''Acme'' ''X1'' [] = None
   \<and> poses (image_listing bench (bench_options\<lparr> userSensorWidth := 25 \<rparr>) PINHOLE_CAMERA_START [] 0
         [[[''u1.jpg'']]] initial_state) = Some [0]
   \<and> unknown_of (image_listing bench (bench_options\<lparr> userSensorWidth := 25 \<rparr>) PINHOLE_CAMERA_START [] 0
         [[[''u1.jpg'']]] initial_state) = Some []
   \<and> checkIntrinsicStringValidity bench ''1000;0;500;0;1000;375;0;0;1'' (- 1, - 1, - 1) =
         (True, 1000, 500, 375)
   \<and> unknown_of (image_listing bench
         (bench_options\<lparr> userKMatrix := ''1000;0;500;0;1000;375;0;0;1'', userFocalLengthPixel := 1000 \<rparr>)
         PINHOLE_CAMERA_START [] 0 [[[''u1.jpg'']]] initial_state) = Some []"
proof -
  let ?f = "process_frame bench bench_options PINHOLE_CAMERA_START [] 0 1 0 0 1 0 ''u1.jpg''
       (bench_fresh, initial_state)"
  have ev1: "frame_unknown ?f = Some [\<lparr> filePath = ''u1.jpg'', brand = ''Acme'', model = ''X1'' \<rparr>]"
    by (simp add: frame_unknown_def bench_fresh_def program_defs bench_defs Let_def cong: let_weak_cong)
  obtain c' s' where run: "?f = Inr (c', s')"
    and us: "unknownSensorImages s' = [\<lparr> filePath = ''u1.jpg'', brand = ''Acme'', model = ''X1'' \<rparr>]"
    using ev1 by (cases ?f) (auto simp: frame_unknown_def)
  have ch: "unknownSensorImages s' \<noteq> unknownSensorImages initial_state"
    using us by (simp add: initial_state_def)
  have dir: "imageDirectory bench_options = []" by (simp add: bench_defs)
  have rd: "getBrand (exif_open bench ''u1.jpg'') = ''Acme''" "getModel (exif_open bench ''u1.jpg'') = ''X1''"
    by (simp_all add: bench_defs)
  have g: "getInfo bench ''Acme'' ''X1'' [] = None"
    using unknown_sensor_only_when [of bench bench_options PINHOLE_CAMERA_START "[]" 0 1 0 0 1 0
        "''u1.jpg''" bench_fresh initial_state c' s', THEN conjunct1] run ch dir rd
    by auto
  let ?o2 = "bench_options\<lparr> userSensorWidth := 25 \<rparr>"
  let ?r2 = "image_listing bench ?o2 PINHOLE_CAMERA_START [] 0 [[[''u1.jpg'']]] initial_state"
  have ev2: "poses ?r2 = Some [0]"
    by (simp add: poses_def program_defs bench_defs Let_def cong: let_weak_cong)
  obtain t2 where run2: "?r2 = Inr t2"
    using ev2 by (cases ?r2) (simp_all add: poses_def)
  have o2: "userSensorWidth ?o2 \<noteq> - 1" by simp
  have "unknownSensorImages t2 = unknownSensorImages initial_state"
    using unknown_sensor_only_when [of bench ?o2 PINHOLE_CAMERA_START "[]" _ _ _ _ _ _ _ _
        initial_state _ _ t2, THEN conjunct2, THEN conjunct1]
      image_listing_steps [OF run2] o2
    by blast
  then have "unknownSensorImages t2 = []" by (simp add: initial_state_def)
  then have u2: "unknown_of ?r2 = Some []"
    unfolding run2 unknown_of_def by simp
  let ?K = "''1000;0;500;0;1000;375;0;0;1''"
  let ?o3 = "bench_options\<lparr> userKMatrix := ?K \<rparr>"
  let ?r3 = "image_listing bench (?o3\<lparr> userFocalLengthPixel := 1000 \<rparr>)
      PINHOLE_CAMERA_START [] 0 [[[''u1.jpg'']]] initial_state"
  have K: "checkIntrinsicStringValidity bench ?K (- 1, - 1, - 1) = (True, 1000, 500, 375)"
    by (simp add: checkIntrinsicStringValidity_def bench_defs)
  have K3: "checkIntrinsicStringValidity bench (userKMatrix ?o3) (userFocalLengthPixel ?o3, - 1, - 1) =
      (True, 1000, 500, 375)"
    using K by (simp add: bench_options_def)
  have ev3: "poses ?r3 = Some [0]"
    by (simp add: poses_def program_defs bench_defs Let_def cong: let_weak_cong)
  obtain t3 where run3: "?r3 = Inr t3"
    using ev3 by (cases ?r3) (simp_all add: poses_def)
  have ne: "userKMatrix ?o3 \<noteq> []" "(1000::real) \<noteq> - 1" by simp_all
  have "unknownSensorImages t3 = []"
    using unknown_sensor_only_when [of bench ?o3 PINHOLE_CAMERA_START "[]" _ _ _ _ _ _ _ _
        _ _ _ t3 1000 500 375 "[[[''u1.jpg'']]]", THEN conjunct2, THEN conjunct2]
      ne K3 run3
    by blast
  then have u3: "unknown_of (image_listing bench
         (bench_options\<lparr> userKMatrix := ?K, userFocalLengthPixel := 1000 \<rparr>)
         PINHOLE_CAMERA_START [] 0 [[[''u1.jpg'']]] initial_state) = Some []"
    unfolding run3 unknown_of_def by simp
  show ?thesis using ev1 g ev2 u2 K u3 by (intro conjI)
qed

text \<open>
  The claim as it was stated fails for a K-matrix whose focal entry is \<open>-1\<close>: the value
  is taken for "unset", and a camera that the database does not know ends the run.
\<close>

theorem unknown_sensor_with_K_matrix_counterexample:
  "userKMatrix bench_K_options = ''-1;0;1;0;-1;1;0;0;1''
   \<and> main bench bench_K_options =
     (EXIT_FAILURE,
      [ErrorSensorWidthUnknown [\<lparr> filePath = ''u1.jpg'', brand = ''Acme'', model = ''X1'' \<rparr>]])"
  by (simp add: bench_K_options_def program_defs bench_defs Let_def cong: let_weak_cong)


section \<open>The count of views without intrinsic\<close>

text \<open>
  Line 997 builds every view with \<^verbatim>\<open>cameraIntrincicId\<close>, the value of the counter
  \<^verbatim>\<open>intrinsicId\<close> before the camera took it: each loop keeps the identifiers of the views
  below the counter.
\<close>

lemma ids_below_mono: "ids_below n vs \<Longrightarrow> n \<le> m \<Longrightarrow> ids_below m vs"
  by (induction vs) (auto simp: ids_below_def)

lemma process_frame_ids_below:
  assumes run: "process_frame env opts ucm db groupId nbCameras cameraId iid nbImages frameId imagePath (c, s) = Inr (c', s')"
    and iid: "iid < intrinsicId s"
    and below: "ids_below (intrinsicId s) (views s)"
  shows "intrinsicId s' = intrinsicId s \<and> ids_below (intrinsicId s') (views s')"
proof -
  note e = process_frame_effect [OF run]
  have keep: "intrinsicId s' = intrinsicId s" using e by (elim conjE)
  have "views s' = views s \<and> poseId s' = poseId s
      \<or> (\<exists>k v. views s' = views s @ [(k, v)] \<and> v_intrinsicId v = iid)"
    using e by auto
  then have m: "ids_below (intrinsicId s) (views s')"
  proof
    assume "views s' = views s \<and> poseId s' = poseId s"
    then show ?thesis using below by simp
  next
    assume "\<exists>k v. views s' = views s @ [(k, v)] \<and> v_intrinsicId v = iid"
    then obtain k v where "views s' = views s @ [(k, v)]" "v_intrinsicId v = iid"
      by (elim exE conjE)
    then show ?thesis using below iid by (simp add: ids_below_def)
  qed
  show ?thesis unfolding keep using m by simp
qed

lemma frame_loop_ids_below:
  "frame_loop env opts ucm db groupId nbCameras cameraId iid nbImages frameId frames (c, s) = Inr (c', s')
   \<Longrightarrow> iid < intrinsicId s \<Longrightarrow> ids_below (intrinsicId s) (views s)
   \<Longrightarrow> intrinsicId s' = intrinsicId s \<and> ids_below (intrinsicId s') (views s')"
proof (induction frames arbitrary: frameId c s)
  case Nil
  then show ?case by simp
next
  case (Cons imagePath rest)
  obtain c1 s1 where
    one: "process_frame env opts ucm db groupId nbCameras cameraId iid nbImages frameId imagePath (c, s) = Inr (c1, s1)"
    and more: "frame_loop env opts ucm db groupId nbCameras cameraId iid nbImages (Suc frameId) rest (c1, s1) = Inr (c', s')"
    using Cons.prems(1) by (auto split: sum.splits)
  note a = process_frame_ids_below [OF one Cons.prems(2) Cons.prems(3)]
  note k = a [THEN conjunct1] and b = a [THEN conjunct2]
  have i: "iid < intrinsicId s1" using k Cons.prems(2) by simp
  note r = Cons.IH [OF more i b]
  show ?case using r [THEN conjunct1] r [THEN conjunct2] k by (intro conjI) simp_all
qed

lemma process_camera_ids_below:
  assumes run: "process_camera env opts ucm db groupId nbCameras cameraId frames s = Inr s'"
    and below: "ids_below (intrinsicId s) (views s)"
  shows "intrinsicId s' = intrinsicId s + 1 \<and> ids_below (intrinsicId s') (views s')"
proof -
  let ?r = "if 1 < nbCameras then AList.update (rigId s) nbCameras (rigs s) else rigs s"
  let ?s2 = "s\<lparr> intrinsicId := intrinsicId s + 1, rigs := ?r \<rparr>"
  let ?c0 = "\<lparr> isCameraFirstImage = True, cameraWidth = 0, cameraHeight = 0, cameraExifData = Map.empty \<rparr>"
  have eq: "(if 1 < nbCameras
             then s\<lparr> intrinsicId := intrinsicId s + 1 \<rparr>
                   \<lparr> rigs := AList.update (rigId (s\<lparr> intrinsicId := intrinsicId s + 1 \<rparr>)) nbCameras
                              (rigs (s\<lparr> intrinsicId := intrinsicId s + 1 \<rparr>)) \<rparr>
             else s\<lparr> intrinsicId := intrinsicId s + 1 \<rparr>) = ?s2"
    by simp
  obtain c' where fl: "frame_loop env opts ucm db groupId nbCameras cameraId (intrinsicId s)
      (length frames) 0 frames (?c0, ?s2) = Inr (c', s')"
    using run unfolding process_camera_def Let_def eq by (auto split: sum.splits)
  have i: "intrinsicId s < intrinsicId ?s2" by simp
  have b: "ids_below (intrinsicId ?s2) (views ?s2)"
    using ids_below_mono [OF below, of "intrinsicId s + 1"] by simp
  note r = frame_loop_ids_below [OF fl i b]
  show ?thesis using r [THEN conjunct1] r [THEN conjunct2] by (intro conjI) simp_all
qed

lemma camera_loop_ids_below:
  "camera_loop env opts ucm db groupId nbCameras cameraId cams s = Inr s'
   \<Longrightarrow> ids_below (intrinsicId s) (views s)
   \<Longrightarrow> intrinsicId s' = intrinsicId s + length cams \<and> ids_below (intrinsicId s') (views s')"
proof (induction cams arbitrary: cameraId s)
  case Nil
  then show ?case by simp
next
  case (Cons cam rest)
  obtain s1 where
    one: "process_camera env opts ucm db groupId nbCameras cameraId cam s = Inr s1"
    and more: "camera_loop env opts ucm db groupId nbCameras (Suc cameraId) rest s1 = Inr s'"
    using Cons.prems(1) by (auto split: sum.splits)
  note a = process_camera_ids_below [OF one Cons.prems(2)]
  note k = a [THEN conjunct1] and b = a [THEN conjunct2]
  note r = Cons.IH [OF more b]
  show ?case using r [THEN conjunct1] r [THEN conjunct2] k by (intro conjI) simp_all
qed

lemma process_group_ids_below:
  assumes run: "process_group env opts ucm db groupId groupImagePaths s = Inr s'"
    and below: "ids_below (intrinsicId s) (views s)"
  shows "intrinsicId s' = intrinsicId s + length groupImagePaths \<and> ids_below (intrinsicId s') (views s')"
proof -
  obtain s1 where
    one: "camera_loop env opts ucm db groupId (length groupImagePaths) 0 groupImagePaths s = Inr s1"
    and fin: "s' = (if 1 < length groupImagePaths
                    then s1\<lparr> rigId := rigId s1 + 1, poseId := poseId s1 + length (hd groupImagePaths) \<rparr>
                    else s1)"
    using run by (auto simp: process_group_def Let_def split: sum.splits)
  note a = camera_loop_ids_below [OF one below]
  have i: "intrinsicId s' = intrinsicId s1" and v: "views s' = views s1"
    unfolding fin by simp_all
  show ?thesis unfolding i v by (rule a)
qed

text \<open>
  After the loops every view is bound to the identifier of its camera's intrinsic, a
  number below the count of the cameras.
\<close>

lemma image_listing_ids_below:
  "image_listing env opts ucm db groupId groups s = Inr s'
   \<Longrightarrow> ids_below (intrinsicId s) (views s)
   \<Longrightarrow> intrinsicId s' = intrinsicId s + length (concat groups) \<and> ids_below (intrinsicId s') (views s')"
proof (induction groups arbitrary: groupId s)
  case Nil
  then show ?case by simp
next
  case (Cons g rest)
  obtain s1 where
    one: "process_group env opts ucm db groupId g s = Inr s1"
    and more: "image_listing env opts ucm db (Suc groupId) rest s1 = Inr s'"
    using Cons.prems(1) by (auto split: sum.splits)
  note a = process_group_ids_below [OF one Cons.prems(2)]
  note k = a [THEN conjunct1] and b = a [THEN conjunct2]
  note r = Cons.IH [OF more b]
  show ?case using r [THEN conjunct1] r [THEN conjunct2] k by (intro conjI) simp_all
qed

text \<open>
  So the count of lines 1059 to 1065 is 0 after every run of the loops with fewer cameras
  than \<^verbatim>\<open>UndefinedIndexT\<close> and no merging: the verdict fails exactly on the empty
  registry, and the warning is never given.
\<close>

lemma viewsWithoutIntrinsic_zero:
  "ids_below n (s_views sfm_data) \<Longrightarrow> n \<le> UndefinedIndexT env \<Longrightarrow>
     viewsWithoutIntrinsic env sfm_data = 0"
  by (auto simp: viewsWithoutIntrinsic_def ids_below_def list_all_iff filter_empty_conv)

lemma no_view_of_a_run_is_counted:
  assumes run: "image_listing env opts ucm db 0 groups initial_state = Inr s"
    and few: "length (concat groups) \<le> UndefinedIndexT env"
    and plain: "userGroupCameraModel opts = 0"
  shows "viewsWithoutIntrinsic env (container env opts s) = 0"
    and "report env (container env opts s) lg =
      (if views s = [] then (EXIT_FAILURE, lg @ [ErrorNoMetadataAll]) else (EXIT_SUCCESS, lg))"
proof -
  have "ids_below (intrinsicId initial_state) (views initial_state)"
    by (simp add: ids_below_def initial_state_def)
  note r = image_listing_ids_below [OF run this]
  have n: "intrinsicId s = length (concat groups)"
    using r [THEN conjunct1] by (simp add: initial_state_def)
  note b = r [THEN conjunct2]
  have v: "s_views (container env opts s) = views s"
    using plain by (simp add: container_def)
  show z: "viewsWithoutIntrinsic env (container env opts s) = 0"
    using viewsWithoutIntrinsic_zero [of "intrinsicId s" "container env opts s" env] b n few v by simp
  show "report env (container env opts s) lg =
      (if views s = [] then (EXIT_FAILURE, lg @ [ErrorNoMetadataAll]) else (EXIT_SUCCESS, lg))"
    using z v by (auto simp: report_def)
qed

text \<open>
  Claim C8 says that the run fails when every retained view lacks a resolved intrinsic,
  and succeeds with a warning naming their count when some but not all do. The code
  reports \<^verbatim>\<open>No instrinsics for\<close> an image whose focal length stays at -1 (line 497), and
  counts at the end the views whose intrinsic identifier is undefined (line 1058), to
  fail with \<^verbatim>\<open>No metadata in all images\<close> or to warn of \<^verbatim>\<open>views without metadata\<close>. No
  view gets that identifier. Two single images without EXIF: both intrinsics keep the
  focal length -1, the views are bound to the identifiers 0 and 1, the count is 0 and
  the run ends with success. One image with EXIF and one without: one of two intrinsics
  is unresolved, the count is 0 and no warning of the count is given.
\<close>

theorem unresolved_intrinsics_not_counted:
  "load_json bench ''plain.json'' = Object (Some (JArray [JString ''r/a0.jpg'', JString ''r/b0.jpg'']))
   \<and> exif_open bench ''r/a0.jpg'' = no_exif \<and> exif_open bench ''r/b0.jpg'' = no_exif
   \<and> parseDatabase bench (sensorDatabasePath plain_options) = Some bench_database
   \<and> retrieve_image_paths bench plain_options = Inr [[[''r/a0.jpg'']], [[''r/b0.jpg'']]]
   \<and> focals (image_listing bench plain_options PINHOLE_CAMERA_START bench_database 0
         [[[''r/a0.jpg'']], [[''r/b0.jpg'']]] initial_state) = Some [- 1, - 1]
   \<and> intrinsic_ids (image_listing bench plain_options PINHOLE_CAMERA_START bench_database 0
         [[[''r/a0.jpg'']], [[''r/b0.jpg'']]] initial_state) = Some [0, 1]
   \<and> counted bench plain_options (image_listing bench plain_options PINHOLE_CAMERA_START
         bench_database 0 [[[''r/a0.jpg'']], [[''r/b0.jpg'']]] initial_state) = Some 0
   \<and> main bench plain_options = (EXIT_SUCCESS, [WarningNoMetadata [''r/a0.jpg'', ''r/b0.jpg'']])
   \<and> load_json bench ''mixed.json'' = Object (Some (JArray [JString ''rot.jpg'', JString ''r/a0.jpg'']))
   \<and> retrieve_image_paths bench mixed_options = Inr [[[''rot.jpg'']], [[''r/a0.jpg'']]]
   \<and> focals (image_listing bench mixed_options PINHOLE_CAMERA_START bench_database 0
         [[[''rot.jpg'']], [[''r/a0.jpg'']]] initial_state) = Some [1250 / 3, - 1]
   \<and> intrinsic_ids (image_listing bench mixed_options PINHOLE_CAMERA_START bench_database 0
         [[[''rot.jpg'']], [[''r/a0.jpg'']]] initial_state) = Some [0, 1]
   \<and> counted bench mixed_options (image_listing bench mixed_options PINHOLE_CAMERA_START
         bench_database 0 [[[''rot.jpg'']], [[''r/a0.jpg'']]] initial_state) = Some 0
   \<and> main bench mixed_options = (EXIT_SUCCESS, [WarningNoMetadata [''r/a0.jpg'']])"
  by (simp add: focals_def intrinsic_ids_def counted_def bench_database_def plain_options_def
      mixed_options_def program_defs bench_defs Let_def cong: let_weak_cong)

end
